theory Spec2Isabelle
  imports Main
begin

section \<open>PyRadical: the batch driver of Pyradiomics.py\<close>

text \<open>
  A shallow embedding of the driver's own logic: the text parsers, the filename resolver,
  the output layout and the participant-by-region extraction loop. The feature extractor,
  the YAML reader and the operating system are outside the program; they enter the model
  as parameters and as a record of what the file system answers.

  Text is ASCII: a \<open>string\<close> is the text Python reads from or writes to a file opened in
  text mode, one \<open>char\<close> per character.
\<close>

subsection \<open>Exceptions\<close>

text \<open>
  The exceptions that leave a function of the driver. \<open>SystemExit n\<close> is \<^verbatim>\<open>exit(n)\<close>;
  \<open>OSError\<close> is a failed \<^verbatim>\<open>open\<close> or \<^verbatim>\<open>os.listdir\<close>; \<open>ValueError\<close> is raised by
  \<^verbatim>\<open>str.split\<close>, by tuple unpacking and by \<^verbatim>\<open>int\<close>; \<open>TypeError\<close> by subscripting a value
  that is not a mapping; \<open>YAMLError\<close> by the YAML reader; \<open>ExtractorError\<close> is any
  exception of the extraction library other than its \<^verbatim>\<open>ValueError\<close>.
\<close>

datatype error = SystemExit nat | OSError | ValueError | TypeError | YAMLError | ExtractorError

subsection \<open>Python strings\<close>

text \<open>\<^verbatim>\<open>s.startswith(p)\<close>.\<close>

fun startswith :: "string \<Rightarrow> string \<Rightarrow> bool" where
  "startswith s [] = True"
| "startswith [] (p # ps) = False"
| "startswith (c # cs) (p # ps) = (c = p \<and> startswith cs ps)"

text \<open>
  \<^verbatim>\<open>str.isspace\<close> on one ASCII character: tab, line feed, vertical tab, form feed,
  carriage return, the four separators 0x1C to 0x1F, and the space.
\<close>

definition isspace :: "char \<Rightarrow> bool" where
  "isspace c = (c \<in> set [CHR 0x09, CHR ''\<newline>'', CHR 0x0B, CHR 0x0C, CHR 0x0D,
                          CHR 0x1C, CHR 0x1D, CHR 0x1E, CHR 0x1F, CHR '' ''])"

text \<open>\<^verbatim>\<open>s.strip()\<close>: whitespace removed at both ends.\<close>

definition strip :: "string \<Rightarrow> string" where
  "strip s = rev (dropWhile isspace (rev (dropWhile isspace s)))"

text \<open>
  \<^verbatim>\<open>s.split(sep)\<close> for a separator that is not empty: the pieces between the occurrences of
  \<open>sep\<close>, found from the left without overlap. \<open>cur\<close> is the piece being read.
\<close>

function split_from :: "string \<Rightarrow> string \<Rightarrow> string \<Rightarrow> string list" where
  "split_from sep cur s =
     (if s = [] then [cur]
      else if sep \<noteq> [] \<and> startswith s sep then cur # split_from sep [] (drop (length sep) s)
      else split_from sep (cur @ [hd s]) (tl s))"
  by pat_completeness auto
termination
  by (relation "measure (\<lambda>(sep, cur, s). length s)") auto

declare split_from.simps [simp del]

text \<open>\<^verbatim>\<open>s.split(sep)\<close>: an empty separator raises \<^verbatim>\<open>ValueError\<close>.\<close>

definition py_split :: "string \<Rightarrow> string \<Rightarrow> error + string list" where
  "py_split s sep = (if sep = [] then Inl ValueError else Inr (split_from sep [] s))"

text \<open>The value of a decimal digit.\<close>

definition digit_of :: "char \<Rightarrow> nat option" where
  "digit_of c = map_of (zip ''0123456789'' [0, 1, 2, 3, 4, 5, 6, 7, 8, 9]) c"

text \<open>
  The digits of \<^verbatim>\<open>int(s)\<close>: decimal digits, with single underscores allowed between two
  digits. \<open>prev\<close> tells whether the character before was a digit.
\<close>

fun parse_digits :: "string \<Rightarrow> nat \<Rightarrow> bool \<Rightarrow> nat option" where
  "parse_digits [] acc prev = (if prev then Some acc else None)"
| "parse_digits (c # cs) acc prev =
     (case digit_of c of
        Some d \<Rightarrow> parse_digits cs (acc * 10 + d) True
      | None \<Rightarrow> if c = CHR ''_'' \<and> prev then parse_digits cs acc False else None)"

text \<open>
  \<^verbatim>\<open>int(s)\<close> in base ten: surrounding whitespace is ignored, one sign is allowed; \<open>None\<close>
  is \<^verbatim>\<open>ValueError\<close>.
\<close>

definition py_int :: "string \<Rightarrow> int option" where
  "py_int s =
     (case strip s of
        [] \<Rightarrow> None
      | c # cs \<Rightarrow>
          if c = CHR ''-'' then map_option (\<lambda>n. - int n) (parse_digits cs 0 False)
          else if c = CHR ''+'' then map_option int (parse_digits cs 0 False)
          else map_option int (parse_digits (c # cs) 0 False))"

text \<open>\<^verbatim>\<open>str(n)\<close> for an integer: the decimal digits, with a minus sign when negative.\<close>

fun dec :: "nat \<Rightarrow> string" where
  "dec n = (if n < 10 then [''0123456789'' ! n] else dec (n div 10) @ [''0123456789'' ! (n mod 10)])"

declare dec.simps [simp del]

definition str_int :: "int \<Rightarrow> string" where
  "str_int i = (if i < 0 then CHR ''-'' # dec (nat (- i)) else dec (nat i))"

text \<open>
  \<^verbatim>\<open>for line in fptr\<close>: the lines of a text, each with its line feed; a last line without
  one is a line too.
\<close>

fun lines_from :: "string \<Rightarrow> string \<Rightarrow> string list" where
  "lines_from cur [] = (if cur = [] then [] else [cur])"
| "lines_from cur (c # cs) =
     (if c = CHR ''\<newline>'' then (cur @ [c]) # lines_from [] cs else lines_from (cur @ [c]) cs)"

definition file_lines :: "string \<Rightarrow> string list" where
  "file_lines txt = lines_from [] txt"

subsection \<open>The file system\<close>

text \<open>
  What the operating system answers: \<open>listing p\<close> is \<^verbatim>\<open>os.listdir(p)\<close> (\<open>None\<close> when it
  raises), \<open>is_dir\<close> is \<^verbatim>\<open>os.path.isdir\<close>, \<open>path_exists\<close> is \<^verbatim>\<open>os.path.exists\<close>, and
  \<open>content p\<close> is the text of the regular file \<open>p\<close> (\<open>None\<close> when \<^verbatim>\<open>open(p)\<close> raises).
  The four answers are independent fields: a listing may name an entry that
  \<^verbatim>\<open>os.path.exists\<close> denies (a dangling link, or a file removed in between).

  Writes are taken to succeed (the driver creates its folders before it writes), and the
  driver writes only below its output root, which is taken to be apart from the two input
  folders: the model leaves the listings as they are.
\<close>

record filesystem =
  listing :: "string \<Rightarrow> string list option"
  is_dir :: "string \<Rightarrow> bool"
  path_exists :: "string \<Rightarrow> bool"
  content :: "string \<Rightarrow> string option"

text \<open>\<^verbatim>\<open>with open(p, 'a') as f: f.write(txt)\<close>: the file is created when absent.\<close>

definition append_file :: "string \<Rightarrow> string \<Rightarrow> filesystem \<Rightarrow> filesystem" where
  "append_file p txt fsys =
     fsys\<lparr>path_exists := (path_exists fsys)(p := True),
          content := (content fsys)(p \<mapsto> (case content fsys p of None \<Rightarrow> txt | Some old \<Rightarrow> old @ txt))\<rparr>"

text \<open>\<^verbatim>\<open>os.mkdir(p)\<close>.\<close>

definition mkdir :: "string \<Rightarrow> filesystem \<Rightarrow> filesystem" where
  "mkdir p fsys = fsys\<lparr>is_dir := (is_dir fsys)(p := True), path_exists := (path_exists fsys)(p := True)\<rparr>"

text \<open>\<^verbatim>\<open>os.path.join\<close> of POSIX, for two and for three components.\<close>

definition path_join :: "string \<Rightarrow> string \<Rightarrow> string" where
  "path_join a b =
     (if startswith b ''/'' then b
      else if a = [] \<or> last a = CHR ''/'' then a @ b
      else a @ ''/'' @ b)"

definition path_join3 :: "string \<Rightarrow> string \<Rightarrow> string \<Rightarrow> string" where
  "path_join3 a b c = path_join (path_join a b) c"

text \<open>
  \<^verbatim>\<open>object_exists\<close>: the assertion on \<^verbatim>\<open>os.path.exists\<close> is caught inside, so the result
  is a plain truth value; the flag \<^verbatim>\<open>suppress\<close> only silences a printed line.
\<close>

definition object_exists :: "filesystem \<Rightarrow> string \<Rightarrow> bool" where
  "object_exists fsys path = path_exists fsys path"

subsection \<open>The text parsers\<close>

text \<open>\<^verbatim>\<open>lines_from_file\<close>: the stripped lines that are not empty, in order.\<close>

definition lines_from_file :: "filesystem \<Rightarrow> string \<Rightarrow> error + string list" where
  "lines_from_file fsys filepath =
     (case content fsys filepath of
        None \<Rightarrow> Inl OSError
      | Some txt \<Rightarrow> Inr (filter (\<lambda>line. line \<noteq> []) (map strip (file_lines txt))))"

text \<open>
  A Python \<^verbatim>\<open>dict\<close> keeps its keys in the order of their first insertion: an association
  list with distinct keys. \<open>dict_set\<close> is \<^verbatim>\<open>d[k] = v\<close>: a key already there keeps its place
  and takes the new value.
\<close>

fun dict_set :: "'k \<Rightarrow> 'v \<Rightarrow> ('k \<times> 'v) list \<Rightarrow> ('k \<times> 'v) list" where
  "dict_set k v [] = [(k, v)]"
| "dict_set k v ((k', v') # d) = (if k' = k then (k, v) # d else (k', v') # dict_set k v d)"

text \<open>
  The loop of \<^verbatim>\<open>dict_from_file\<close>: a line is split at the separator, the two pieces are
  unpacked (any other number of pieces is a \<^verbatim>\<open>ValueError\<close>), the key is stripped and read
  as an integer, the value is stripped.
\<close>

fun parse_lines :: "string \<Rightarrow> string list \<Rightarrow> (int \<times> string) list \<Rightarrow> error + (int \<times> string) list" where
  "parse_lines separator [] values = Inr values"
| "parse_lines separator (line # rest) values =
     (case py_split line separator of
        Inl e \<Rightarrow> Inl e
      | Inr pieces \<Rightarrow>
          (case pieces of
             [key, val] \<Rightarrow>
               (case py_int (strip key) of
                  None \<Rightarrow> Inl ValueError
                | Some n \<Rightarrow> parse_lines separator rest (dict_set n (strip val) values))
           | _ \<Rightarrow> Inl ValueError))"

definition dict_from_file :: "filesystem \<Rightarrow> string \<Rightarrow> string \<Rightarrow> error + (int \<times> string) list" where
  "dict_from_file fsys filepath separator =
     (case content fsys filepath of
        None \<Rightarrow> Inl OSError
      | Some txt \<Rightarrow> parse_lines separator (file_lines txt) [])"

subsection \<open>The parameter file\<close>

text \<open>
  What \<^verbatim>\<open>yaml.safe_load\<close> returns, as far as the driver looks into it: a document is a
  scalar or a mapping of section names; a section is a scalar or a mapping of field names
  to scalars. Scalars are \<^verbatim>\<open>None\<close>, truth values, integers, floats and strings (deeper
  nesting is left out). The reader itself is a parameter \<open>safe_load\<close> of the model, from
  the text of the file to a document or a \<open>YAMLError\<close>.

  A float is held as the runtime's shortest-digits conversion returns it, which is the
  first step of \<^verbatim>\<open>repr\<close>: the sign, the shortest string of decimal digits that reads back
  as the same float, and the position \<open>decpt\<close> of the decimal point, counted from the
  first digit (the value is \<open>0.d1...dn * 10 ^ decpt\<close>; zero is the digit \<open>0\<close> at position
  1). So 0.5 is the digit \<open>5\<close> at position 0 and 25.0 the digits \<open>25\<close> at position 2.
  Infinities and the not-a-number value are values of their own.
\<close>

datatype pyfloat = FFinite bool string int | FInf bool | FNaN

datatype pyval = PNone | PBool bool | PInt int | PFloat pyfloat | PStr string

datatype entry = SVal pyval | SMap "string \<Rightarrow> pyval option"

datatype yaml = YVal pyval | YMap "string \<Rightarrow> entry option"

text \<open>
  \<^verbatim>\<open>str(x)\<close> for a float is \<^verbatim>\<open>repr(x)\<close>: the digits are laid out in exponent notation when
  \<open>decpt \<le> -4\<close> or \<open>16 < decpt\<close> (one digit, a point only when more digits follow, then
  \<^verbatim>\<open>e\<close>, the sign of the exponent and at least two digits of it), and otherwise in
  positional notation with at least one digit on each side of the point.
\<close>

definition exponent_text :: "int \<Rightarrow> string" where
  "exponent_text e = (if e < 0 then ''-'' else ''+'') @ (if \<bar>e\<bar> < 10 then ''0'' else []) @ dec (nat \<bar>e\<bar>)"

fun float_repr :: "pyfloat \<Rightarrow> string" where
  "float_repr FNaN = ''nan''"
| "float_repr (FInf negative) = (if negative then ''-inf'' else ''inf'')"
| "float_repr (FFinite negative ds decpt) =
     (if negative then ''-'' else []) @
     (if decpt \<le> - 4 \<or> 16 < decpt then
        take 1 ds @ (if 1 < length ds then ''.'' @ drop 1 ds else []) @ ''e'' @ exponent_text (decpt - 1)
      else if decpt \<le> 0 then ''0.'' @ replicate (nat (- decpt)) (CHR ''0'') @ ds
      else if nat decpt < length ds then take (nat decpt) ds @ ''.'' @ drop (nat decpt) ds
      else ds @ replicate (nat decpt - length ds) (CHR ''0'') @ ''.0'')"

text \<open>\<^verbatim>\<open>str(v)\<close> on a scalar.\<close>

fun py_str :: "pyval \<Rightarrow> string" where
  "py_str PNone = ''None''"
| "py_str (PBool b) = (if b then ''True'' else ''False'')"
| "py_str (PInt i) = str_int i"
| "py_str (PFloat x) = float_repr x"
| "py_str (PStr s) = s"

text \<open>
  \<^verbatim>\<open>data[setting][field]\<close> under \<^verbatim>\<open>except KeyError\<close>: a missing key is caught, a line is
  printed and \<^verbatim>\<open>None\<close> is returned; subscripting a scalar with a string raises
  \<^verbatim>\<open>TypeError\<close>, which is not caught.
\<close>

definition lookup_field :: "yaml \<Rightarrow> string \<Rightarrow> string \<Rightarrow> error + pyval" where
  "lookup_field data setting field =
     (case data of
        YVal v \<Rightarrow> Inl TypeError
      | YMap m \<Rightarrow>
          (case m setting of
             None \<Rightarrow> Inr PNone
           | Some (SVal v) \<Rightarrow> Inl TypeError
           | Some (SMap f) \<Rightarrow> (case f field of None \<Rightarrow> Inr PNone | Some v \<Rightarrow> Inr v)))"

definition get_parameter_value ::
  "(string \<Rightarrow> error + yaml) \<Rightarrow> filesystem \<Rightarrow> string \<Rightarrow> string \<Rightarrow> string \<Rightarrow> error + pyval" where
  "get_parameter_value safe_load fsys path setting field =
     (if \<not> object_exists fsys path then Inr PNone
      else case content fsys path of
             None \<Rightarrow> Inl OSError
           | Some txt \<Rightarrow>
               (case safe_load txt of
                  Inl e \<Rightarrow> Inl e
                | Inr data \<Rightarrow> lookup_field data setting field))"

subsection \<open>The output layout\<close>

text \<open>
  The date is an input of the model: what \<^verbatim>\<open>date.today()\<close> returns. \<open>date_today\<close> is
  \<^verbatim>\<open>strftime("%d-%B-%Y")\<close> in the English locale: the day on two digits, the full name of
  the month, the year (four digits for every date \<^verbatim>\<open>date.today()\<close> can return today).
\<close>

datatype month = January | February | March | April | May | June | July | August
  | September | October | November | December

record date =
  year :: nat
  month_of :: month
  day :: nat

fun month_name :: "month \<Rightarrow> string" where
  "month_name January = ''January''"
| "month_name February = ''February''"
| "month_name March = ''March''"
| "month_name April = ''April''"
| "month_name May = ''May''"
| "month_name June = ''June''"
| "month_name July = ''July''"
| "month_name August = ''August''"
| "month_name September = ''September''"
| "month_name October = ''October''"
| "month_name November = ''November''"
| "month_name December = ''December''"

definition two_digits :: "nat \<Rightarrow> string" where
  "two_digits n = (if n < 10 then CHR ''0'' # dec n else dec n)"

definition date_today :: "date \<Rightarrow> string" where
  "date_today today = two_digits (day today) @ ''-'' @ month_name (month_of today) @ ''-'' @ dec (year today)"

definition verbose_output_location ::
  "(string \<Rightarrow> error + yaml) \<Rightarrow> date \<Rightarrow> filesystem \<Rightarrow> string \<Rightarrow> string \<Rightarrow> error + string" where
  "verbose_output_location safe_load today fsys whr parameters =
     (let date_str = date_today today in
      case get_parameter_value safe_load fsys parameters ''setting'' ''binWidth'' of
        Inl e \<Rightarrow> Inl e
      | Inr binwidth \<Rightarrow> Inr (path_join whr (date_str @ ''_BinWidth_'' @ py_str binwidth)))"

text \<open>
  \<^verbatim>\<open>create_output_folders\<close>: the root is made when absent, then one folder
  \<^verbatim>\<open><ID>_Features\<close> for every name, when absent.
\<close>

fun create_folders :: "string \<Rightarrow> string list \<Rightarrow> filesystem \<Rightarrow> filesystem" where
  "create_folders whr [] fsys = fsys"
| "create_folders whr (folder # rest) fsys =
     (let out_folder = path_join whr (folder @ ''_Features'') in
      create_folders whr rest (if \<not> path_exists fsys out_folder then mkdir out_folder fsys else fsys))"

definition create_output_folders :: "string \<Rightarrow> string list \<Rightarrow> filesystem \<Rightarrow> filesystem" where
  "create_output_folders whr foldernames fsys =
     create_folders whr foldernames (if path_exists fsys whr then fsys else mkdir whr fsys)"

subsection \<open>The filename resolver\<close>

text \<open>
  \<^verbatim>\<open>resolve_target_filepath\<close>: a prefix \<^verbatim>\<open>None\<close> is the empty prefix; the entries that are
  not directories are kept; the first whose name starts with the prefix followed by the
  identifier is the target; a target whose joined path does not exist is \<^verbatim>\<open>exit(3)\<close>.
\<close>

definition resolve_target_filepath ::
  "filesystem \<Rightarrow> string \<Rightarrow> string option \<Rightarrow> string \<Rightarrow> error + (bool \<times> string)" where
  "resolve_target_filepath fsys path prefix ID =
     (let prefix' = (case prefix of None \<Rightarrow> [] | Some p \<Rightarrow> p) in
      case listing fsys path of
        None \<Rightarrow> Inl OSError
      | Some entries \<Rightarrow>
          (let files = filter (\<lambda>file. \<not> is_dir fsys (path_join path file)) entries in
           case find (\<lambda>file. startswith file (prefix' @ ID)) files of
             Some target \<Rightarrow>
               (let fullpath = path_join path target in
                if path_exists fsys fullpath then Inr (True, fullpath) else Inl (SystemExit 3))
           | None \<Rightarrow> Inr (False, [])))"

subsection \<open>The extraction loop\<close>

text \<open>
  The extraction library is a parameter: given the parameter file, the volume, the mask
  and the label it returns the features (name and value as the text that is written, in
  the order of the result mapping), or raises its \<^verbatim>\<open>ValueError\<close> on a degenerate mask
  (with the message), or raises anything else.
\<close>

datatype extraction = Features "(string \<times> string) list" | MaskError string | OtherFailure

type_synonym extractor = "string \<Rightarrow> string \<Rightarrow> string \<Rightarrow> int \<Rightarrow> extraction"

text \<open>
  The state of a run: the file system, and the calls of \<^verbatim>\<open>extractor.execute\<close> made so
  far (volume, mask, label).
\<close>

record state =
  fs :: filesystem
  calls :: "(string \<times> string \<times> int) list"

text \<open>The values read from the entries of the form.\<close>

record config =
  output_location :: string
  volumes :: string
  regions :: string
  parameters_file :: string
  volprefix :: string
  regionprefix :: string
  maskvalues_file :: string
  ids_file :: string

text \<open>The \<^verbatim>\<open>write\<close> calls of the inner loop over the features, on the text written so far.\<close>

fun write_features :: "(string \<times> string) list \<Rightarrow> string \<Rightarrow> string" where
  "write_features [] buf = buf"
| "write_features ((feature, val) # rest) buf =
     write_features rest (buf @ ''\<newline>'' @ feature @ '':'' @ val)"

text \<open>
  One pass of the loop over the masks: the extractor is called; on its \<^verbatim>\<open>ValueError\<close> the
  marked line is appended and the loop continues; on success the header, the features and
  the sentinel are written through one handle opened for appending.
\<close>

definition process_region ::
  "extractor \<Rightarrow> string \<Rightarrow> string \<Rightarrow> string \<Rightarrow> string \<Rightarrow> int \<times> string \<Rightarrow> state \<Rightarrow> (error + unit) \<times> state" where
  "process_region execute parameters T1_path ROI_path feature_outpath region s =
     (let index = fst region; name = snd region;
          s' = s\<lparr>calls := calls s @ [(T1_path, ROI_path, index)]\<rparr> in
      case execute parameters T1_path ROI_path index of
        MaskError msg \<Rightarrow>
          (Inr (), s'\<lparr>fs := append_file feature_outpath
             (''\<newline>$MASKERROR['' @ name @ '':'' @ str_int index @ ''] '' @ msg @ ''\<newline>'') (fs s')\<rparr>)
      | OtherFailure \<Rightarrow> (Inl ExtractorError, s')
      | Features feature_result \<Rightarrow>
          (Inr (), s'\<lparr>fs := append_file feature_outpath
             (write_features feature_result (''\<newline>$['' @ name @ '':'' @ str_int index @ '']'')
                @ ''\<newline>MASKBREAK\<newline>'') (fs s')\<rparr>))"

text \<open>
  The loop over the keys of the mask mapping, in the order of the mapping; the name of a
  key is its value in the mapping, so the loop runs over the pairs.
\<close>

fun regions_loop ::
  "extractor \<Rightarrow> string \<Rightarrow> string \<Rightarrow> string \<Rightarrow> string \<Rightarrow> (int \<times> string) list \<Rightarrow> state \<Rightarrow> (error + unit) \<times> state" where
  "regions_loop execute parameters T1_path ROI_path feature_outpath [] s = (Inr (), s)"
| "regions_loop execute parameters T1_path ROI_path feature_outpath (region # rest) s =
     (case process_region execute parameters T1_path ROI_path feature_outpath region s of
        (Inl e, s') \<Rightarrow> (Inl e, s')
      | (Inr u, s') \<Rightarrow> regions_loop execute parameters T1_path ROI_path feature_outpath rest s')"

text \<open>The path of the feature file of a participant.\<close>

definition feature_outpath_of :: "string \<Rightarrow> string \<Rightarrow> string" where
  "feature_outpath_of out ppt = path_join3 out (ppt @ ''_Features'') (ppt @ ''_FeatureValues.txt'')"

text \<open>
  One pass of the loop over the participants: both files are resolved, then a missing
  mask file, a missing volume or a feature file that exists each skip the participant.
\<close>

definition process_participant ::
  "extractor \<Rightarrow> config \<Rightarrow> string \<Rightarrow> (int \<times> string) list \<Rightarrow> string \<Rightarrow> state \<Rightarrow> (error + unit) \<times> state" where
  "process_participant execute cfg out mask_values ppt s =
     (case resolve_target_filepath (fs s) (regions cfg) (Some (regionprefix cfg)) ppt of
        Inl e \<Rightarrow> (Inl e, s)
      | Inr (ROI_found, ROI_path) \<Rightarrow>
          (case resolve_target_filepath (fs s) (volumes cfg) (Some (volprefix cfg)) ppt of
             Inl e \<Rightarrow> (Inl e, s)
           | Inr (T1_found, T1_path) \<Rightarrow>
               if \<not> ROI_found then (Inr (), s)
               else if \<not> T1_found then (Inr (), s)
               else if path_exists (fs s) (feature_outpath_of out ppt) then (Inr (), s)
               else regions_loop execute (parameters_file cfg) T1_path ROI_path
                      (feature_outpath_of out ppt) mask_values s))"

fun participants_loop ::
  "extractor \<Rightarrow> config \<Rightarrow> string \<Rightarrow> (int \<times> string) list \<Rightarrow> string list \<Rightarrow> state \<Rightarrow> (error + unit) \<times> state" where
  "participants_loop execute cfg out mask_values [] s = (Inr (), s)"
| "participants_loop execute cfg out mask_values (ppt # rest) s =
     (case process_participant execute cfg out mask_values ppt s of
        (Inl e, s') \<Rightarrow> (Inl e, s')
      | (Inr u, s') \<Rightarrow> participants_loop execute cfg out mask_values rest s')"

text \<open>
  \<^verbatim>\<open>main\<close>, after the start-up dialogs (which change nothing): the mask mapping and the
  participants are read, the output root is named and its folders are made, then the loop
  runs. An exception ends the run, with the file system as it is at that point.
\<close>

definition main ::
  "extractor \<Rightarrow> (string \<Rightarrow> error + yaml) \<Rightarrow> date \<Rightarrow> config \<Rightarrow> state \<Rightarrow> (error + unit) \<times> state" where
  "main execute safe_load today cfg s =
     (case dict_from_file (fs s) (maskvalues_file cfg) '':'' of
        Inl e \<Rightarrow> (Inl e, s)
      | Inr mask_values \<Rightarrow>
          (case lines_from_file (fs s) (ids_file cfg) of
             Inl e \<Rightarrow> (Inl e, s)
           | Inr participant_IDs \<Rightarrow>
               (case verbose_output_location safe_load today (fs s) (output_location cfg) (parameters_file cfg) of
                  Inl e \<Rightarrow> (Inl e, s)
                | Inr out \<Rightarrow>
                    participants_loop execute cfg out mask_values participant_IDs
                      (s\<lparr>fs := create_output_folders out participant_IDs (fs s)\<rparr>))))"

subsection \<open>A small cohort\<close>

text \<open>
  A concrete world for running the model: two input folders, a mask file with two labels,
  two participants of which only \<open>sub-01\<close> has both files, an entry
  \<open>sub-03_T1.nii\<close> that the volume folder lists although the path does not exist, and a
  folder \<open>/data\<close> that holds the single file \<open>sub-01_T1.nii\<close>.
  The extractor accepts label 1 and rejects every other label as degenerate. The YAML
  reader knows four documents: the parameter file of the cohort, one with the bin width
  0.5, one whose \<open>setting\<close> section is empty, and one that is the bare number 25; it
  rejects every other text.
\<close>

definition example_fs :: filesystem where
  "example_fs =
     \<lparr>listing = [''/vol'' \<mapsto> [''sub-01_T1.nii'', ''sub-03_T1.nii''],
                 ''/roi'' \<mapsto> [''sub-01_aseg.nii'', ''sub-03_aseg.nii''],
                 ''/data'' \<mapsto> [''sub-01_T1.nii'']],
      is_dir = (\<lambda>p. p \<in> set [''/vol'', ''/roi'', ''/data'', ''/out'', ''/in'']),
      path_exists = (\<lambda>p. p \<in> set [''/vol'', ''/roi'', ''/data'', ''/out'', ''/in'',
         ''/vol/sub-01_T1.nii'', ''/roi/sub-01_aseg.nii'', ''/roi/sub-03_aseg.nii'',
         ''/data/sub-01_T1.nii'', ''/in/maskvalues.txt'', ''/in/ids.txt'', ''/in/params.yaml'']),
      content = [''/in/maskvalues.txt'' \<mapsto> ''1:amygdala\<newline>14 : hippocampus\<newline>'',
                 ''/in/ids.txt'' \<mapsto> ''sub-01\<newline>sub-02\<newline>'',
                 ''/in/params.yaml'' \<mapsto> ''setting: {binWidth: 25}'']\<rparr>"

definition example_load :: "string \<Rightarrow> error + yaml" where
  "example_load txt =
     (if txt = ''setting: {binWidth: 25}'' then Inr (YMap [''setting'' \<mapsto> SMap [''binWidth'' \<mapsto> PInt 25]])
      else if txt = ''setting: {binWidth: 0.5}'' then
        Inr (YMap [''setting'' \<mapsto> SMap [''binWidth'' \<mapsto> PFloat (FFinite False ''5'' 0)]])
      else if txt = ''setting: {}'' then Inr (YMap [''setting'' \<mapsto> SMap Map.empty])
      else if txt = ''25'' then Inr (YVal (PInt 25))
      else Inl YAMLError)"

definition example_execute :: extractor where
  "example_execute parameters T1_path ROI_path label =
     (if label = 1 then Features [(''Mean'', ''3''), (''Max'', ''9'')] else MaskError ''mask has 1 voxel'')"

definition example_cfg :: config where
  "example_cfg = \<lparr>output_location = ''/out'', volumes = ''/vol'', regions = ''/roi'',
     parameters_file = ''/in/params.yaml'', volprefix = [], regionprefix = [],
     maskvalues_file = ''/in/maskvalues.txt'', ids_file = ''/in/ids.txt''\<rparr>"

definition example_date :: date where
  "example_date = \<lparr>year = 2024, month_of = January, day = 5\<rparr>"

definition example_state :: state where
  "example_state = \<lparr>fs = example_fs, calls = []\<rparr>"

lemmas example_defs = example_fs_def example_load_def example_execute_def example_cfg_def
  example_date_def example_state_def

lemmas run_defs = main_def dict_from_file_def lines_from_file_def file_lines_def py_split_def
  split_from.simps py_int_def strip_def isspace_def digit_of_def verbose_output_location_def
  get_parameter_value_def object_exists_def lookup_field_def date_today_def two_digits_def dec.simps
  str_int_def path_join_def path_join3_def create_output_folders_def mkdir_def
  process_participant_def resolve_target_filepath_def feature_outpath_of_def process_region_def
  append_file_def Let_def

section \<open>Properties\<close>

subsection \<open>The filename resolver\<close>

lemma find_filter_first:
  "Q x \<Longrightarrow> P x \<Longrightarrow> \<forall>e\<in>set before. \<not> (Q e \<and> P e) \<Longrightarrow>
   find P (filter Q (before @ x # after)) = Some x"
  by (induction before) auto

lemma find_filter_none:
  "\<forall>e\<in>set entries. \<not> (Q e \<and> P e) \<Longrightarrow> find P (filter Q entries) = None"
  by (induction entries) auto

lemma participants_loop_append:
  "participants_loop execute cfg out mv (xs @ ys) s =
     (case participants_loop execute cfg out mv xs s of
        (Inl e, s') \<Rightarrow> (Inl e, s')
      | (Inr u, s') \<Rightarrow> participants_loop execute cfg out mv ys s')"
  by (induction xs arbitrary: s) (auto split: prod.splits sum.splits)

lemma resolve_exit:
  assumes "listing fsys path = Some (before @ target # after)"
    and "\<not> is_dir fsys (path_join path target)"
    and "startswith target ((case prefix of None \<Rightarrow> [] | Some p \<Rightarrow> p) @ ID)"
    and "\<forall>e\<in>set before. is_dir fsys (path_join path e) \<or>
           \<not> startswith e ((case prefix of None \<Rightarrow> [] | Some p \<Rightarrow> p) @ ID)"
    and "\<not> path_exists fsys (path_join path target)"
  shows "resolve_target_filepath fsys path prefix ID = Inl (SystemExit 3)"
proof -
  from assms(2-4) have "find (\<lambda>file. startswith file ((case prefix of None \<Rightarrow> [] | Some p \<Rightarrow> p) @ ID))
        (filter (\<lambda>file. \<not> is_dir fsys (path_join path file)) (before @ target # after)) = Some target"
    by (intro find_filter_first) auto
  with assms(1,5) show ?thesis
    by (simp add: resolve_target_filepath_def)
qed

text \<open>
  C5. When an entry qualifies (it is the first entry that is not a directory and starts with
  prefix + identifier) but the joined path does not exist, the resolver leaves through
  \<^verbatim>\<open>exit(3)\<close>: it returns no pair, and the loop over the participants, which does not
  catch it, ends there with the same exit, whether the mask or the volume was being
  resolved; the participants that follow are not processed and nothing is written.
\<close>

theorem vanished_target_terminates:
  assumes "listing fsys path = Some (before @ target # after)"
    and "\<not> is_dir fsys (path_join path target)"
    and "startswith target ((case prefix of None \<Rightarrow> [] | Some p \<Rightarrow> p) @ ID)"
    and "\<forall>e\<in>set before. is_dir fsys (path_join path e) \<or>
           \<not> startswith e ((case prefix of None \<Rightarrow> [] | Some p \<Rightarrow> p) @ ID)"
    and "\<not> path_exists fsys (path_join path target)"
  shows "resolve_target_filepath fsys path prefix ID = Inl (SystemExit 3) \<and>
    (\<forall>execute cfg out mv earlier rest s s'.
       participants_loop execute cfg out mv earlier s = (Inr (), s') \<and> fs s' = fsys \<and>
       ((path = regions cfg \<and> prefix = Some (regionprefix cfg)) \<or>
        (path = volumes cfg \<and> prefix = Some (volprefix cfg) \<and>
         (\<exists>r. resolve_target_filepath fsys (regions cfg) (Some (regionprefix cfg)) ID = Inr r)))
       \<longrightarrow> participants_loop execute cfg out mv (earlier @ ID # rest) s = (Inl (SystemExit 3), s'))"
proof (intro conjI allI impI)
  show ex: "resolve_target_filepath fsys path prefix ID = Inl (SystemExit 3)"
    using assms by (rule resolve_exit)
  fix execute cfg out mv earlier rest and s s' :: state
  assume a: "participants_loop execute cfg out mv earlier s = (Inr (), s') \<and> fs s' = fsys \<and>
       ((path = regions cfg \<and> prefix = Some (regionprefix cfg)) \<or>
        (path = volumes cfg \<and> prefix = Some (volprefix cfg) \<and>
         (\<exists>r. resolve_target_filepath fsys (regions cfg) (Some (regionprefix cfg)) ID = Inr r)))"
  then have "process_participant execute cfg out mv ID s' = (Inl (SystemExit 3), s')"
    using ex by (auto simp: process_participant_def)
  with a show "participants_loop execute cfg out mv (earlier @ ID # rest) s = (Inl (SystemExit 3), s')"
    by (simp add: participants_loop_append)
qed

theorem vanished_target_terminates_witness:
  "resolve_target_filepath example_fs ''/vol'' (Some []) ''sub-03'' = Inl (SystemExit 3) \<and>
   participants_loop example_execute example_cfg ''/out/x'' [(1, ''amygdala'')] [''sub-03'', ''sub-01'']
     example_state = (Inl (SystemExit 3), example_state)"
proof -
  have h1: "listing example_fs ''/vol'' = Some ([''sub-01_T1.nii''] @ ''sub-03_T1.nii'' # [])"
    by (simp add: example_fs_def)
  have h2: "\<not> is_dir example_fs (path_join ''/vol'' ''sub-03_T1.nii'')"
    by (simp add: example_fs_def path_join_def)
  have h3: "startswith ''sub-03_T1.nii'' ((case Some [] of None \<Rightarrow> [] | Some p \<Rightarrow> p) @ ''sub-03'')"
    by simp
  have h4: "\<forall>e\<in>set [''sub-01_T1.nii'']. is_dir example_fs (path_join ''/vol'' e) \<or>
           \<not> startswith e ((case Some [] of None \<Rightarrow> [] | Some p \<Rightarrow> p) @ ''sub-03'')"
    by simp
  have h5: "\<not> path_exists example_fs (path_join ''/vol'' ''sub-03_T1.nii'')"
    by (simp add: example_fs_def path_join_def)
  have h6: "participants_loop example_execute example_cfg ''/out/x'' [(1, ''amygdala'')] [] example_state
      = (Inr (), example_state) \<and> fs example_state = example_fs \<and>
       ((''/vol'' = regions example_cfg \<and> Some [] = Some (regionprefix example_cfg)) \<or>
        (''/vol'' = volumes example_cfg \<and> Some [] = Some (volprefix example_cfg) \<and>
         (\<exists>r. resolve_target_filepath example_fs (regions example_cfg) (Some (regionprefix example_cfg)) ''sub-03'' = Inr r)))"
    by (auto simp: example_defs resolve_target_filepath_def path_join_def)
  from vanished_target_terminates [OF h1 h2 h3 h4 h5] h6
  show ?thesis by fastforce
qed


text \<open>
  C4. The resolver looks only at the entries that are not directories and takes the first
  whose name starts with prefix + identifier (a prefix \<^verbatim>\<open>None\<close> counts as empty): when the
  joined path of that entry exists it returns found with that path; when no entry
  qualifies it returns not found with the empty path, and being a function of the file
  system it does nothing else. A folder holding only \<open>sub-01_T1.nii\<close> resolves, with the
  empty prefix, \<open>sub-01\<close> to that file and \<open>sub-02\<close> to not found. (The case of a
  qualifying entry whose path does not exist is C5.)
\<close>

theorem resolver_first_match:
  "pre = (case prefix of None \<Rightarrow> [] | Some p \<Rightarrow> p) \<Longrightarrow>
   (listing fsys path = Some (before @ target # after) \<and>
    \<not> is_dir fsys (path_join path target) \<and> startswith target (pre @ ID) \<and>
    (\<forall>e\<in>set before. is_dir fsys (path_join path e) \<or> \<not> startswith e (pre @ ID)) \<and>
    path_exists fsys (path_join path target)
    \<longrightarrow> resolve_target_filepath fsys path prefix ID = Inr (True, path_join path target)) \<and>
   (listing fsys path = Some entries \<and>
    (\<forall>e\<in>set entries. is_dir fsys (path_join path e) \<or> \<not> startswith e (pre @ ID))
    \<longrightarrow> resolve_target_filepath fsys path prefix ID = Inr (False, [])) \<and>
   (listing fsys path = Some [''sub-01_T1.nii''] \<and>
    \<not> is_dir fsys (path_join path ''sub-01_T1.nii'') \<and>
    path_exists fsys (path_join path ''sub-01_T1.nii'')
    \<longrightarrow> resolve_target_filepath fsys path (Some []) ''sub-01'' = Inr (True, path_join path ''sub-01_T1.nii'') \<and>
        resolve_target_filepath fsys path (Some []) ''sub-02'' = Inr (False, []))"
proof (intro conjI impI)
  assume pre: "pre = (case prefix of None \<Rightarrow> [] | Some p \<Rightarrow> p)"
  {
    assume a: "listing fsys path = Some (before @ target # after) \<and>
      \<not> is_dir fsys (path_join path target) \<and> startswith target (pre @ ID) \<and>
      (\<forall>e\<in>set before. is_dir fsys (path_join path e) \<or> \<not> startswith e (pre @ ID)) \<and>
      path_exists fsys (path_join path target)"
    then have "find (\<lambda>file. startswith file (pre @ ID))
        (filter (\<lambda>file. \<not> is_dir fsys (path_join path file)) (before @ target # after)) = Some target"
      by (intro find_filter_first) auto
    with a pre show "resolve_target_filepath fsys path prefix ID = Inr (True, path_join path target)"
      by (simp add: resolve_target_filepath_def)
  }
  {
    assume a: "listing fsys path = Some entries \<and>
      (\<forall>e\<in>set entries. is_dir fsys (path_join path e) \<or> \<not> startswith e (pre @ ID))"
    then have "find (\<lambda>file. startswith file (pre @ ID))
        (filter (\<lambda>file. \<not> is_dir fsys (path_join path file)) entries) = None"
      by (intro find_filter_none) auto
    with a pre show "resolve_target_filepath fsys path prefix ID = Inr (False, [])"
      by (simp add: resolve_target_filepath_def)
  }
  {
    assume a: "listing fsys path = Some [''sub-01_T1.nii''] \<and>
      \<not> is_dir fsys (path_join path ''sub-01_T1.nii'') \<and>
      path_exists fsys (path_join path ''sub-01_T1.nii'')"
    then show "resolve_target_filepath fsys path (Some []) ''sub-01'' = Inr (True, path_join path ''sub-01_T1.nii'')"
      by (simp add: resolve_target_filepath_def)
    from a show "resolve_target_filepath fsys path (Some []) ''sub-02'' = Inr (False, [])"
      by (simp add: resolve_target_filepath_def)
  }
qed

theorem resolver_first_match_witness:
  "resolve_target_filepath example_fs ''/roi'' None ''sub-03'' = Inr (True, ''/roi/sub-03_aseg.nii'') \<and>
   resolve_target_filepath example_fs ''/roi'' None ''sub-02'' = Inr (False, []) \<and>
   resolve_target_filepath example_fs ''/data'' (Some []) ''sub-01'' = Inr (True, ''/data/sub-01_T1.nii'') \<and>
   resolve_target_filepath example_fs ''/data'' (Some []) ''sub-02'' = Inr (False, [])"
proof -
  have pre: "[] = (case None of None \<Rightarrow> [] | Some p \<Rightarrow> p)" by simp
  have h1: "listing example_fs ''/roi'' = Some ([''sub-01_aseg.nii''] @ ''sub-03_aseg.nii'' # []) \<and>
    \<not> is_dir example_fs (path_join ''/roi'' ''sub-03_aseg.nii'') \<and>
    startswith ''sub-03_aseg.nii'' ([] @ ''sub-03'') \<and>
    (\<forall>e\<in>set [''sub-01_aseg.nii'']. is_dir example_fs (path_join ''/roi'' e) \<or> \<not> startswith e ([] @ ''sub-03'')) \<and>
    path_exists example_fs (path_join ''/roi'' ''sub-03_aseg.nii'')"
    by (simp add: example_fs_def path_join_def)
  have h2: "listing example_fs ''/roi'' = Some [''sub-01_aseg.nii'', ''sub-03_aseg.nii''] \<and>
    (\<forall>e\<in>set [''sub-01_aseg.nii'', ''sub-03_aseg.nii''].
       is_dir example_fs (path_join ''/roi'' e) \<or> \<not> startswith e ([] @ ''sub-02''))"
    by (simp add: example_fs_def)
  have h3: "listing example_fs ''/data'' = Some [''sub-01_T1.nii''] \<and>
    \<not> is_dir example_fs (path_join ''/data'' ''sub-01_T1.nii'') \<and>
    path_exists example_fs (path_join ''/data'' ''sub-01_T1.nii'')"
    by (simp add: example_fs_def path_join_def)
  have j1: "path_join ''/roi'' ''sub-03_aseg.nii'' = ''/roi/sub-03_aseg.nii''"
    and j2: "path_join ''/data'' ''sub-01_T1.nii'' = ''/data/sub-01_T1.nii''"
    by (simp_all add: path_join_def)
  from resolver_first_match [OF pre, of example_fs "''/roi''" "[''sub-01_aseg.nii'']" "''sub-03_aseg.nii''" "[]" "''sub-03''"
      "[''sub-01_aseg.nii'', ''sub-03_aseg.nii'']"] h1
  have r1: "resolve_target_filepath example_fs ''/roi'' None ''sub-03'' = Inr (True, ''/roi/sub-03_aseg.nii'')"
    unfolding j1 by blast
  from resolver_first_match [OF pre, of example_fs "''/roi''" "[]" "[]" "[]" "''sub-02''"
      "[''sub-01_aseg.nii'', ''sub-03_aseg.nii'']"] h2
  have r2: "resolve_target_filepath example_fs ''/roi'' None ''sub-02'' = Inr (False, [])"
    by blast
  from resolver_first_match [OF pre, of example_fs "''/data''" "[]" "[]" "[]" "[]" "[]"] h3
  have r3: "resolve_target_filepath example_fs ''/data'' (Some []) ''sub-01'' = Inr (True, ''/data/sub-01_T1.nii'') \<and>
   resolve_target_filepath example_fs ''/data'' (Some []) ''sub-02'' = Inr (False, [])"
    unfolding j2 by blast
  from r1 r2 r3 show ?thesis by simp
qed

subsection \<open>What a run leaves untouched\<close>

lemma append_file_frame:
  "content (append_file p txt fsys) q = (if q = p then Some (case content fsys p of None \<Rightarrow> txt | Some old \<Rightarrow> old @ txt) else content fsys q)"
  "path_exists (append_file p txt fsys) q = (q = p \<or> path_exists fsys q)"
  "listing (append_file p txt fsys) = listing fsys"
  "is_dir (append_file p txt fsys) = is_dir fsys"
  by (auto simp: append_file_def)

lemma mkdir_frame:
  "content (mkdir p fsys) = content fsys"
  "path_exists (mkdir p fsys) q = (q = p \<or> path_exists fsys q)"
  "listing (mkdir p fsys) = listing fsys"
  by (auto simp: mkdir_def)

lemma process_region_frame:
  assumes "process_region execute par t1 roi out region s = (res, s')"
  shows "q \<noteq> out \<Longrightarrow> content (fs s') q = content (fs s) q"
    and "path_exists (fs s) q \<Longrightarrow> path_exists (fs s') q"
  using assms
  by (auto simp: process_region_def Let_def append_file_frame split: extraction.splits)

lemma regions_loop_frame:
  "regions_loop execute par t1 roi out mask_values s = (res, s') \<Longrightarrow>
   (q \<noteq> out \<longrightarrow> content (fs s') q = content (fs s) q) \<and>
   (path_exists (fs s) q \<longrightarrow> path_exists (fs s') q)"
proof (induction mask_values arbitrary: s)
  case Nil
  then show ?case by simp
next
  case (Cons region rest)
  obtain r1 s1 where step: "process_region execute par t1 roi out region s = (r1, s1)"
    by (cases "process_region execute par t1 roi out region s")
  show ?case
  proof (cases r1)
    case (Inl e)
    with Cons.prems step have "s' = s1" by simp
    with process_region_frame [OF step] show ?thesis by simp
  next
    case (Inr u)
    with Cons.prems step have "regions_loop execute par t1 roi out rest s1 = (res, s')" by simp
    from Cons.IH [OF this] process_region_frame [OF step, of q] show ?thesis by simp
  qed
qed

lemma process_participant_skip:
  "path_exists (fs s) (feature_outpath_of out ppt) \<Longrightarrow>
   snd (process_participant execute cfg out mask_values ppt s) = s"
  by (simp add: process_participant_def split: sum.splits prod.splits)

lemma process_participant_frame:
  assumes "process_participant execute cfg out mask_values ppt s = (res, s')"
    and "path_exists (fs s) q"
  shows "content (fs s') q = content (fs s) q \<and> path_exists (fs s') q"
proof (cases "q = feature_outpath_of out ppt")
  case True
  with assms(2) have "path_exists (fs s) (feature_outpath_of out ppt)" by simp
  from process_participant_skip [OF this, of execute cfg mask_values] assms(1)
  have "s' = s" by simp
  with assms(2) show ?thesis by simp
next
  case False
  with assms show ?thesis
    by (auto simp: process_participant_def split: sum.splits prod.splits if_splits
        dest: regions_loop_frame [where q = q])
qed

lemma participants_loop_frame:
  "participants_loop execute cfg out mask_values ppts s = (res, s') \<Longrightarrow> path_exists (fs s) q \<Longrightarrow>
   content (fs s') q = content (fs s) q \<and> path_exists (fs s') q"
proof (induction ppts arbitrary: s)
  case Nil
  then show ?case by simp
next
  case (Cons ppt rest)
  obtain r1 s1 where step: "process_participant execute cfg out mask_values ppt s = (r1, s1)"
    by (cases "process_participant execute cfg out mask_values ppt s")
  note fr = process_participant_frame [OF step Cons.prems(2)]
  show ?case
  proof (cases r1)
    case (Inl e)
    with Cons.prems step have "s' = s1" by simp
    with fr show ?thesis by simp
  next
    case (Inr u)
    with Cons.prems step have "participants_loop execute cfg out mask_values rest s1 = (res, s')" by simp
    from Cons.IH [OF this] fr show ?thesis by simp
  qed
qed

lemma create_folders_frame:
  "content (create_folders whr names fsys) = content fsys \<and>
   (path_exists fsys q \<longrightarrow> path_exists (create_folders whr names fsys) q)"
  by (induction names arbitrary: fsys) (auto simp: Let_def mkdir_frame)

lemma create_output_folders_frame:
  "content (create_output_folders whr names fsys) = content fsys"
  "path_exists fsys q \<Longrightarrow> path_exists (create_output_folders whr names fsys) q"
  using create_folders_frame [of whr names fsys q] create_folders_frame [of whr names "mkdir whr fsys" q]
  by (auto simp: create_output_folders_def mkdir_frame)

lemma main_frame:
  assumes "main execute safe_load today cfg s = (res, s')" and "path_exists (fs s) q"
  shows "content (fs s') q = content (fs s) q \<and> path_exists (fs s') q"
proof (cases "\<exists>mv ids out. dict_from_file (fs s) (maskvalues_file cfg) '':'' = Inr mv \<and>
     lines_from_file (fs s) (ids_file cfg) = Inr ids \<and>
     verbose_output_location safe_load today (fs s) (output_location cfg) (parameters_file cfg) = Inr out")
  case True
  then obtain mv ids out where h: "dict_from_file (fs s) (maskvalues_file cfg) '':'' = Inr mv"
     "lines_from_file (fs s) (ids_file cfg) = Inr ids"
     "verbose_output_location safe_load today (fs s) (output_location cfg) (parameters_file cfg) = Inr out"
    by blast
  with assms(1) have loop: "participants_loop execute cfg out mv ids
      (s\<lparr>fs := create_output_folders out ids (fs s)\<rparr>) = (res, s')"
    by (simp add: main_def)
  from assms(2) have "path_exists (fs (s\<lparr>fs := create_output_folders out ids (fs s)\<rparr>)) q"
    by (simp add: create_output_folders_frame)
  from participants_loop_frame [OF loop this] show ?thesis
    by (simp add: create_output_folders_frame)
next
  case False
  with assms(1) have "s' = s"
    by (auto simp: main_def split: sum.splits)
  with assms(2) show ?thesis by simp
qed

text \<open>
  C1. Run twice with nothing removed in between, the driver leaves every file that exists
  after the first run as it is: in particular every feature file written by the first
  run has the same text after the second. The reason is the skip: a participant whose
  feature file exists leaves the state of the run unchanged, so nothing is appended and
  the extractor is not called for that participant.
\<close>

theorem rerun_keeps_existing_outputs:
  "s1 = snd (main execute safe_load today cfg s0) \<Longrightarrow>
   s2 = snd (main execute safe_load today cfg s1) \<Longrightarrow>
   (\<forall>p. path_exists (fs s1) p \<longrightarrow> path_exists (fs s2) p \<and> content (fs s2) p = content (fs s1) p) \<and>
   (\<forall>out mask_values ppt (s::state). path_exists (fs s) (feature_outpath_of out ppt) \<longrightarrow>
      snd (process_participant execute cfg out mask_values ppt s) = s)"
proof (intro conjI allI impI)
  fix p
  assume s2: "s2 = snd (main execute safe_load today cfg s1)" and ex: "path_exists (fs s1) p"
  obtain res where "main execute safe_load today cfg s1 = (res, s2)"
    using s2 by (cases "main execute safe_load today cfg s1") simp
  from main_frame [OF this ex]
  show "path_exists (fs s2) p" and "content (fs s2) p = content (fs s1) p" by simp_all
next
  fix out mask_values ppt and s :: state
  assume "path_exists (fs s) (feature_outpath_of out ppt)"
  then show "snd (process_participant execute cfg out mask_values ppt s) = s"
    by (rule process_participant_skip)
qed


theorem rerun_keeps_existing_outputs_witness:
  "content (fs (snd (main example_execute example_load example_date example_cfg example_state)))
     ''/out/05-January-2024_BinWidth_25/sub-01_Features/sub-01_FeatureValues.txt'' =
     Some ''\<newline>$[amygdala:1]\<newline>Mean:3\<newline>Max:9\<newline>MASKBREAK\<newline>\<newline>$MASKERROR[hippocampus:14] mask has 1 voxel\<newline>'' \<and>
   content (fs (snd (main example_execute example_load example_date example_cfg
       (snd (main example_execute example_load example_date example_cfg example_state)))))
     ''/out/05-January-2024_BinWidth_25/sub-01_Features/sub-01_FeatureValues.txt'' =
     Some ''\<newline>$[amygdala:1]\<newline>Mean:3\<newline>Max:9\<newline>MASKBREAK\<newline>\<newline>$MASKERROR[hippocampus:14] mask has 1 voxel\<newline>'' \<and>
   snd (process_participant example_execute example_cfg ''/out/05-January-2024_BinWidth_25''
       [(1, ''amygdala''), (14, ''hippocampus'')] ''sub-01''
       (snd (main example_execute example_load example_date example_cfg example_state))) =
     snd (main example_execute example_load example_date example_cfg example_state)"
proof -
  let ?s1 = "snd (main example_execute example_load example_date example_cfg example_state)"
  let ?p = "''/out/05-January-2024_BinWidth_25/sub-01_Features/sub-01_FeatureValues.txt''"
  have c: "content (fs ?s1) ?p =
     Some ''\<newline>$[amygdala:1]\<newline>Mean:3\<newline>Max:9\<newline>MASKBREAK\<newline>\<newline>$MASKERROR[hippocampus:14] mask has 1 voxel\<newline>''"
    by (simp add: run_defs example_defs)
  have e: "path_exists (fs ?s1) ?p"
    by (simp add: run_defs example_defs)
  have f: "feature_outpath_of ''/out/05-January-2024_BinWidth_25'' ''sub-01'' = ?p"
    by (simp add: feature_outpath_of_def path_join3_def path_join_def)
  note t = rerun_keeps_existing_outputs [OF refl refl, of example_execute example_load example_date
      example_cfg example_state]
  from t e have "content (fs (snd (main example_execute example_load example_date example_cfg ?s1))) ?p
      = content (fs ?s1) ?p"
    by blast
  moreover from t e f have "snd (process_participant example_execute example_cfg
       ''/out/05-January-2024_BinWidth_25'' [(1, ''amygdala''), (14, ''hippocampus'')] ''sub-01'' ?s1) = ?s1"
    by metis
  ultimately show ?thesis using c by simp
qed



subsection \<open>What a region writes\<close>

lemma write_features_closed:
  "write_features kvs buf = buf @ concat (map (\<lambda>(feature, val). ''\<newline>'' @ feature @ '':'' @ val) kvs)"
  by (induction kvs arbitrary: buf) auto

lemma lines_from_no_newline:
  "CHR ''\<newline>'' \<notin> set a \<Longrightarrow> lines_from cur (a @ CHR ''\<newline>'' # rest) = (cur @ a @ ''\<newline>'') # lines_from [] rest"
  by (induction a arbitrary: cur) auto

lemma lines_from_features:
  "\<forall>(feature, val)\<in>set kvs. CHR ''\<newline>'' \<notin> set feature \<and> CHR ''\<newline>'' \<notin> set val \<Longrightarrow>
   CHR ''\<newline>'' \<notin> set hd_line \<Longrightarrow> CHR ''\<newline>'' \<notin> set last_line \<Longrightarrow>
   lines_from [] (hd_line @ concat (map (\<lambda>(feature, val). ''\<newline>'' @ feature @ '':'' @ val) kvs)
       @ ''\<newline>'' @ last_line @ ''\<newline>'') =
     (hd_line @ ''\<newline>'') # map (\<lambda>(feature, val). feature @ '':'' @ val @ ''\<newline>'') kvs
       @ [last_line @ ''\<newline>'']"
proof (induction kvs arbitrary: hd_line)
  case Nil
  then show ?case
    using lines_from_no_newline [of hd_line "[]" "last_line @ ''\<newline>''"]
          lines_from_no_newline [of last_line "[]" "[]"]
    by simp
next
  case (Cons kv kvs)
  obtain feature val where kv: "kv = (feature, val)" by (cases kv)
  with Cons.prems have nl: "CHR ''\<newline>'' \<notin> set (feature @ '':'' @ val)" by auto
  from Cons.prems have rest: "\<forall>(feature, val)\<in>set kvs. CHR ''\<newline>'' \<notin> set feature \<and> CHR ''\<newline>'' \<notin> set val"
    by auto
  have "lines_from [] (hd_line @ concat (map (\<lambda>(feature, val). ''\<newline>'' @ feature @ '':'' @ val) (kv # kvs))
       @ ''\<newline>'' @ last_line @ ''\<newline>'') =
     (hd_line @ ''\<newline>'') # lines_from [] ((feature @ '':'' @ val)
        @ concat (map (\<lambda>(feature, val). ''\<newline>'' @ feature @ '':'' @ val) kvs) @ ''\<newline>'' @ last_line @ ''\<newline>'')"
    using lines_from_no_newline [OF Cons.prems(2), of "[]"] kv by simp
  also have "lines_from [] ((feature @ '':'' @ val)
        @ concat (map (\<lambda>(feature, val). ''\<newline>'' @ feature @ '':'' @ val) kvs) @ ''\<newline>'' @ last_line @ ''\<newline>'') =
     ((feature @ '':'' @ val) @ ''\<newline>'') # map (\<lambda>(feature, val). feature @ '':'' @ val @ ''\<newline>'') kvs
       @ [last_line @ ''\<newline>'']"
    by (rule Cons.IH [OF rest nl Cons.prems(3)])
  finally show ?case using kv by simp
qed

lemma dec_digits: "set (dec n) \<subseteq> set ''0123456789''"
proof (induction n rule: dec.induct)
  case (1 n)
  have m: "''0123456789'' ! (n mod 10) \<in> set ''0123456789''"
    by (rule nth_mem) simp
  show ?case
  proof (cases "n < 10")
    case True
    then have "''0123456789'' ! n \<in> set ''0123456789''" by (intro nth_mem) simp
    with True show ?thesis by (subst dec.simps) simp
  next
    case False
    with 1 m show ?thesis by (subst dec.simps) simp
  qed
qed

lemma str_int_no_newline: "CHR ''\<newline>'' \<notin> set (str_int i)"
  using dec_digits [of "nat i"] dec_digits [of "nat (- i)"]
  by (auto simp: str_int_def)


text \<open>
  C2. For a region on which the extractor succeeds, the pass appends to the feature file
  (after whatever the file holds already) a line feed, the header \<^verbatim>\<open>$[name:index]\<close>, one
  \<^verbatim>\<open>feature:value\<close> per entry of the result in its order, and \<^verbatim>\<open>MASKBREAK\<close>; no other
  file changes and the pass ends normally. When the name, the features and the values
  hold no line feed, the appended text read back line by line is an empty line, one
  header line, one line per feature and one \<^verbatim>\<open>MASKBREAK\<close> line, in that order.
\<close>

theorem successful_region_block:
  "execute parameters T1_path ROI_path index = Features feature_result \<Longrightarrow>
   block = ''\<newline>$['' @ name @ '':'' @ str_int index @ '']''
       @ concat (map (\<lambda>(feature, val). ''\<newline>'' @ feature @ '':'' @ val) feature_result)
       @ ''\<newline>MASKBREAK\<newline>'' \<Longrightarrow>
   s' = snd (process_region execute parameters T1_path ROI_path feature_outpath (index, name) s) \<Longrightarrow>
   fst (process_region execute parameters T1_path ROI_path feature_outpath (index, name) s) = Inr () \<and>
   content (fs s') feature_outpath =
     Some ((case content (fs s) feature_outpath of None \<Rightarrow> [] | Some old \<Rightarrow> old) @ block) \<and>
   (\<forall>q. q \<noteq> feature_outpath \<longrightarrow> content (fs s') q = content (fs s) q) \<and>
   calls s' = calls s @ [(T1_path, ROI_path, index)] \<and>
   (CHR ''\<newline>'' \<notin> set name \<and>
    (\<forall>(feature, val)\<in>set feature_result. CHR ''\<newline>'' \<notin> set feature \<and> CHR ''\<newline>'' \<notin> set val)
    \<longrightarrow> file_lines block =
          [''\<newline>'', ''$['' @ name @ '':'' @ str_int index @ '']\<newline>'']
          @ map (\<lambda>(feature, val). feature @ '':'' @ val @ ''\<newline>'') feature_result
          @ [''MASKBREAK\<newline>''])"
proof (intro conjI allI impI)
  assume ex: "execute parameters T1_path ROI_path index = Features feature_result"
    and b: "block = ''\<newline>$['' @ name @ '':'' @ str_int index @ '']''
       @ concat (map (\<lambda>(feature, val). ''\<newline>'' @ feature @ '':'' @ val) feature_result)
       @ ''\<newline>MASKBREAK\<newline>''"
    and s': "s' = snd (process_region execute parameters T1_path ROI_path feature_outpath (index, name) s)"
  from ex show "fst (process_region execute parameters T1_path ROI_path feature_outpath (index, name) s) = Inr ()"
    by (simp add: process_region_def Let_def)
  from ex b s' show "content (fs s') feature_outpath =
     Some ((case content (fs s) feature_outpath of None \<Rightarrow> [] | Some old \<Rightarrow> old) @ block)"
    by (simp add: process_region_def Let_def append_file_frame write_features_closed split: option.splits)
  from ex s' show "calls s' = calls s @ [(T1_path, ROI_path, index)]"
    by (simp add: process_region_def Let_def)
  {
    fix q assume "q \<noteq> feature_outpath"
    with ex s' show "content (fs s') q = content (fs s) q"
      by (simp add: process_region_def Let_def append_file_frame)
  }
  {
    assume nl: "CHR ''\<newline>'' \<notin> set name \<and>
      (\<forall>(feature, val)\<in>set feature_result. CHR ''\<newline>'' \<notin> set feature \<and> CHR ''\<newline>'' \<notin> set val)"
    then have h: "CHR ''\<newline>'' \<notin> set (''$['' @ name @ '':'' @ str_int index @ '']'')"
      using str_int_no_newline [of index] by simp
    have m: "CHR ''\<newline>'' \<notin> set ''MASKBREAK''" by simp
    from nl have f: "\<forall>(feature, val)\<in>set feature_result. CHR ''\<newline>'' \<notin> set feature \<and> CHR ''\<newline>'' \<notin> set val"
      by simp
    have "file_lines block = ''\<newline>'' # lines_from [] ((''$['' @ name @ '':'' @ str_int index @ '']'')
         @ concat (map (\<lambda>(feature, val). ''\<newline>'' @ feature @ '':'' @ val) feature_result)
         @ ''\<newline>'' @ ''MASKBREAK'' @ ''\<newline>'')"
      by (simp add: b file_lines_def)
    also note lines_from_features [OF f h m]
    finally show "file_lines block =
          [''\<newline>'', ''$['' @ name @ '':'' @ str_int index @ '']\<newline>'']
          @ map (\<lambda>(feature, val). feature @ '':'' @ val @ ''\<newline>'') feature_result
          @ [''MASKBREAK\<newline>'']"
      by simp
  }
qed

theorem successful_region_block_witness:
  "content (fs (snd (process_region example_execute ''/in/params.yaml'' ''/vol/sub-01_T1.nii''
       ''/roi/sub-01_aseg.nii'' ''/out/f.txt'' (1, ''amygdala'') example_state))) ''/out/f.txt'' =
     Some ''\<newline>$[amygdala:1]\<newline>Mean:3\<newline>Max:9\<newline>MASKBREAK\<newline>'' \<and>
   file_lines ''\<newline>$[amygdala:1]\<newline>Mean:3\<newline>Max:9\<newline>MASKBREAK\<newline>'' =
     [''\<newline>'', ''$[amygdala:1]\<newline>'', ''Mean:3\<newline>'', ''Max:9\<newline>'', ''MASKBREAK\<newline>'']"
proof -
  have h1: "example_execute ''/in/params.yaml'' ''/vol/sub-01_T1.nii'' ''/roi/sub-01_aseg.nii'' 1
      = Features [(''Mean'', ''3''), (''Max'', ''9'')]"
    by (simp add: example_execute_def)
  have h2: "''\<newline>$[amygdala:1]\<newline>Mean:3\<newline>Max:9\<newline>MASKBREAK\<newline>'' = ''\<newline>$['' @ ''amygdala'' @ '':'' @ str_int 1 @ '']''
       @ concat (map (\<lambda>(feature, val). ''\<newline>'' @ feature @ '':'' @ val) [(''Mean'', ''3''), (''Max'', ''9'')])
       @ ''\<newline>MASKBREAK\<newline>''"
    by (simp add: str_int_def dec.simps)
  have h3: "CHR ''\<newline>'' \<notin> set ''amygdala'' \<and>
    (\<forall>(feature, val)\<in>set [(''Mean'', ''3''), (''Max'', ''9'')]. CHR ''\<newline>'' \<notin> set feature \<and> CHR ''\<newline>'' \<notin> set val)"
    by simp
  have c: "content (fs example_state) ''/out/f.txt'' = None"
    by (simp add: example_defs)
  from successful_region_block [where execute = example_execute and feature_outpath = "''/out/f.txt''"
      and s = example_state, OF h1 h2 refl] h3 c
  show ?thesis by (simp add: str_int_def dec.simps)
qed

text \<open>
  C3. For a region on which the extractor raises its \<^verbatim>\<open>ValueError\<close>, the pass appends to
  the feature file a line feed and the one line \<^verbatim>\<open>$MASKERROR[name:index] message\<close>, changes
  no other file and ends normally, so that the loop over the regions goes on with the
  next region of the same participant. When the name and the message hold no line feed,
  the appended text read back line by line is an empty line and that one line: no line
  of it starts with \<^verbatim>\<open>$[\<close> and none is \<^verbatim>\<open>MASKBREAK\<close>.
\<close>

theorem degenerate_mask_marked:
  "execute parameters T1_path ROI_path index = MaskError msg \<Longrightarrow>
   line = ''$MASKERROR['' @ name @ '':'' @ str_int index @ ''] '' @ msg \<Longrightarrow>
   s' = snd (process_region execute parameters T1_path ROI_path feature_outpath (index, name) s) \<Longrightarrow>
   fst (process_region execute parameters T1_path ROI_path feature_outpath (index, name) s) = Inr () \<and>
   content (fs s') feature_outpath =
     Some ((case content (fs s) feature_outpath of None \<Rightarrow> [] | Some old \<Rightarrow> old)
           @ ''\<newline>'' @ line @ ''\<newline>'') \<and>
   (\<forall>q. q \<noteq> feature_outpath \<longrightarrow> content (fs s') q = content (fs s) q) \<and>
   regions_loop execute parameters T1_path ROI_path feature_outpath ((index, name) # rest) s =
     regions_loop execute parameters T1_path ROI_path feature_outpath rest s' \<and>
   (CHR ''\<newline>'' \<notin> set name \<and> CHR ''\<newline>'' \<notin> set msg
    \<longrightarrow> file_lines (''\<newline>'' @ line @ ''\<newline>'') = [''\<newline>'', line @ ''\<newline>''] \<and>
        (\<forall>l\<in>set (file_lines (''\<newline>'' @ line @ ''\<newline>'')). \<not> startswith l ''$['' \<and> l \<noteq> ''MASKBREAK\<newline>''))"
proof (intro conjI allI impI)
  assume ex: "execute parameters T1_path ROI_path index = MaskError msg"
    and l: "line = ''$MASKERROR['' @ name @ '':'' @ str_int index @ ''] '' @ msg"
    and s': "s' = snd (process_region execute parameters T1_path ROI_path feature_outpath (index, name) s)"
  from ex show r: "fst (process_region execute parameters T1_path ROI_path feature_outpath (index, name) s) = Inr ()"
    by (simp add: process_region_def Let_def)
  from ex l s' show "content (fs s') feature_outpath =
     Some ((case content (fs s) feature_outpath of None \<Rightarrow> [] | Some old \<Rightarrow> old) @ ''\<newline>'' @ line @ ''\<newline>'')"
    by (simp add: process_region_def Let_def append_file_frame split: option.splits)
  from r s' show "regions_loop execute parameters T1_path ROI_path feature_outpath ((index, name) # rest) s =
     regions_loop execute parameters T1_path ROI_path feature_outpath rest s'"
    by (cases "process_region execute parameters T1_path ROI_path feature_outpath (index, name) s") simp
  {
    fix q assume "q \<noteq> feature_outpath"
    with ex s' show "content (fs s') q = content (fs s) q"
      by (simp add: process_region_def Let_def append_file_frame)
  }
  {
    assume nl: "CHR ''\<newline>'' \<notin> set name \<and> CHR ''\<newline>'' \<notin> set msg"
    with l have n: "CHR ''\<newline>'' \<notin> set line"
      using str_int_no_newline [of index] by simp
    from lines_from_no_newline [OF n, of "[]" "[]"]
    show fl: "file_lines (''\<newline>'' @ line @ ''\<newline>'') = [''\<newline>'', line @ ''\<newline>'']"
      by (simp add: file_lines_def)
    from l show "\<forall>l\<in>set (file_lines (''\<newline>'' @ line @ ''\<newline>'')). \<not> startswith l ''$['' \<and> l \<noteq> ''MASKBREAK\<newline>''"
      unfolding fl by simp
  }
qed

theorem degenerate_mask_marked_witness:
  "content (fs (snd (process_region example_execute ''/in/params.yaml'' ''/vol/sub-01_T1.nii''
       ''/roi/sub-01_aseg.nii'' ''/out/f.txt'' (14, ''hippocampus'') example_state))) ''/out/f.txt'' =
     Some ''\<newline>$MASKERROR[hippocampus:14] mask has 1 voxel\<newline>'' \<and>
   file_lines ''\<newline>$MASKERROR[hippocampus:14] mask has 1 voxel\<newline>'' =
     [''\<newline>'', ''$MASKERROR[hippocampus:14] mask has 1 voxel\<newline>'']"
proof -
  have h1: "example_execute ''/in/params.yaml'' ''/vol/sub-01_T1.nii'' ''/roi/sub-01_aseg.nii'' 14
      = MaskError ''mask has 1 voxel''"
    by (simp add: example_execute_def)
  have h2: "''$MASKERROR[hippocampus:14] mask has 1 voxel'' =
      ''$MASKERROR['' @ ''hippocampus'' @ '':'' @ str_int 14 @ ''] '' @ ''mask has 1 voxel''"
    by (simp add: str_int_def dec.simps)
  have h3: "CHR ''\<newline>'' \<notin> set ''hippocampus'' \<and> CHR ''\<newline>'' \<notin> set ''mask has 1 voxel''"
    by simp
  have c: "content (fs example_state) ''/out/f.txt'' = None"
    by (simp add: example_defs)
  from degenerate_mask_marked [where execute = example_execute and feature_outpath = "''/out/f.txt''"
      and s = example_state, OF h1 h2 refl] h3 c
  show ?thesis by simp
qed

subsection \<open>The output root\<close>

lemma dec_not_empty: "dec n \<noteq> []"
  by (subst dec.simps) simp

lemma date_today_first:
  "\<not> startswith (date_today today @ rest) ''/''"
proof -
  have a: "CHR ''/'' \<notin> set ''0123456789''" by simp
  have "\<exists>c cs. two_digits (day today) = c # cs \<and> c \<noteq> CHR ''/''"
  proof (cases "day today < 10")
    case True
    then show ?thesis by (simp add: two_digits_def)
  next
    case False
    obtain c cs where d: "dec (day today) = c # cs"
      using dec_not_empty [of "day today"] by (cases "dec (day today)") auto
    with dec_digits [of "day today"] have "c \<in> set ''0123456789''" by auto
    with a have "c \<noteq> CHR ''/''" by metis
    with d False show ?thesis by (simp add: two_digits_def)
  qed
  then show ?thesis by (auto simp: date_today_def)
qed

lemma digit_char_code:
  "k < 10 \<Longrightarrow> (of_char (''0123456789'' ! k) :: nat) = 48 + k"
proof -
  assume "k < 10"
  then consider "k = 0" | "k = 1" | "k = 2" | "k = 3" | "k = 4" | "k = 5" | "k = 6" | "k = 7"
    | "k = 8" | "k = 9"
    by atomize_elim arith
  then show ?thesis by cases simp_all
qed

lemma dec_small: "n < 10 \<Longrightarrow> dec n = [''0123456789'' ! n]"
  by (subst dec.simps) simp

lemma dec_step: "10 \<le> n \<Longrightarrow> dec n = dec (n div 10) @ [''0123456789'' ! (n mod 10)]"
  by (subst dec.simps) simp

lemma dec_value: "foldl (\<lambda>a c. 10 * a + (of_char c - 48)) 0 (dec n) = n"
proof (induction n rule: dec.induct)
  case (1 n)
  show ?case
  proof (cases "n < 10")
    case True
    then show ?thesis by (simp add: dec_small digit_char_code)
  next
    case False
    then have "dec n = dec (n div 10) @ [''0123456789'' ! (n mod 10)]" by (simp add: dec_step)
    moreover have "(of_char (''0123456789'' ! (n mod 10)) :: nat) = 48 + n mod 10"
      by (rule digit_char_code) simp
    ultimately show ?thesis using 1 [OF False] by simp
  qed
qed

lemma dec_leading: "hd (dec n) = CHR ''0'' \<Longrightarrow> dec n = ''0''"
proof (induction n rule: dec.induct)
  case (1 n)
  show ?case
  proof (cases "n < 10")
    case True
    with 1 (2) have "(of_char (''0123456789'' ! n) :: nat) = of_char (CHR ''0'')"
      by (simp add: dec_small)
    with True have "n = 0" by (simp add: digit_char_code)
    then show ?thesis by (simp add: dec_small)
  next
    case False
    then have s: "dec n = dec (n div 10) @ [''0123456789'' ! (n mod 10)]" by (simp add: dec_step)
    with 1 (2) dec_not_empty [of "n div 10"] have "hd (dec (n div 10)) = CHR ''0''" by simp
    from 1 (1) [OF False this] have "dec (n div 10) = ''0''" .
    with dec_value [of "n div 10"] have "n div 10 = 0" by simp
    with False show ?thesis by simp
  qed
qed

lemma two_digits_text:
  "d < 100 \<Longrightarrow> two_digits d = [''0123456789'' ! (d div 10), ''0123456789'' ! (d mod 10)]"
  by (cases "d < 10") (simp_all add: two_digits_def dec_small dec_step)

lemma year_text:
  assumes "1000 \<le> y" and "y \<le> 9999"
  shows "dec y = [''0123456789'' ! (y div 1000), ''0123456789'' ! (y div 100 mod 10),
     ''0123456789'' ! (y div 10 mod 10), ''0123456789'' ! (y mod 10)]"
proof -
  from assms have a: "dec y = dec (y div 10) @ [''0123456789'' ! (y mod 10)]"
    by (simp add: dec_step)
  from assms have b: "dec (y div 10) = dec (y div 10 div 10) @ [''0123456789'' ! (y div 10 mod 10)]"
    by (intro dec_step) linarith
  from assms have c: "dec (y div 10 div 10) = dec (y div 10 div 10 div 10) @ [''0123456789'' ! (y div 10 div 10 mod 10)]"
    by (intro dec_step) linarith
  from assms have d: "dec (y div 10 div 10 div 10) = [''0123456789'' ! (y div 10 div 10 div 10)]"
    by (intro dec_small) linarith
  have e: "y div 10 div 10 = y div 100" "y div 100 div 10 = y div 1000"
    by arith+
  from a b c d show ?thesis unfolding e by simp
qed

lemma month_name_text:
  "month_name mo =
     (case mo of January \<Rightarrow> ''January'' | February \<Rightarrow> ''February'' | March \<Rightarrow> ''March''
      | April \<Rightarrow> ''April'' | May \<Rightarrow> ''May'' | June \<Rightarrow> ''June'' | July \<Rightarrow> ''July''
      | August \<Rightarrow> ''August'' | September \<Rightarrow> ''September'' | October \<Rightarrow> ''October''
      | November \<Rightarrow> ''November'' | December \<Rightarrow> ''December'')"
  by (cases mo) simp_all


lemma path_join_dated:
  "path_join whr (date_today today @ rest) =
     (if whr = [] \<or> last whr = CHR ''/'' then whr else whr @ ''/'') @ date_today today @ rest"
  using date_today_first [of today rest] by (simp add: path_join_def)

text \<open>
  C7. When the parameter file exists and its document gives \<open>setting.binWidth\<close> a value,
  the verbose output root is the base path, one \<^verbatim>\<open>/\<close> (none when the base is empty or
  ends with one), and a segment made of the date, the text \<^verbatim>\<open>_BinWidth_\<close> and the value as
  \<^verbatim>\<open>str\<close> prints it. The date is the day on two digits, the English name of the month and
  the year on four digits, with \<^verbatim>\<open>-\<close> between them (for a day of the month and a year
  from 1000 to 9999, which covers every date the clock can give today). The value is
  \<^verbatim>\<open>None\<close>, \<^verbatim>\<open>True\<close> or \<^verbatim>\<open>False\<close>, the decimal numeral of an integer with its sign, the
  \<^verbatim>\<open>repr\<close> of a float, or a string unchanged. Base \<^verbatim>\<open>/out\<close>, the 5th of January 2024 and the bin width 25 give
  \<^verbatim>\<open>/out/05-January-2024_BinWidth_25\<close>.
\<close>

theorem verbose_output_root:
  assumes "path_exists fsys parameters" and "content fsys parameters = Some txt"
    and "safe_load txt = Inr (YMap m)" and "m ''setting'' = Some (SMap f)"
    and "f ''binWidth'' = Some binwidth"
    and "day today \<le> 31" and "1000 \<le> year today" and "year today \<le> 9999"
  shows "(\<exists>digits.
      digits \<noteq> [] \<and> set digits \<subseteq> set ''0123456789'' \<and> (hd digits = CHR ''0'' \<longrightarrow> digits = ''0'') \<and>
      foldl (\<lambda>a c. 10 * a + (of_char c - 48)) 0 digits =
        (case binwidth of PInt i \<Rightarrow> nat \<bar>i\<bar> | PFloat (FFinite negative ds decpt) \<Rightarrow> nat \<bar>decpt - 1\<bar> | _ \<Rightarrow> 0) \<and>
      verbose_output_location safe_load today fsys whr parameters =
        Inr ((if whr = [] \<or> last whr = CHR ''/'' then whr else whr @ ''/'') @
          [''0123456789'' ! (day today div 10), ''0123456789'' ! (day today mod 10)] @ ''-'' @
          (case month_of today of January \<Rightarrow> ''January'' | February \<Rightarrow> ''February''
           | March \<Rightarrow> ''March'' | April \<Rightarrow> ''April'' | May \<Rightarrow> ''May'' | June \<Rightarrow> ''June''
           | July \<Rightarrow> ''July'' | August \<Rightarrow> ''August'' | September \<Rightarrow> ''September''
           | October \<Rightarrow> ''October'' | November \<Rightarrow> ''November'' | December \<Rightarrow> ''December'') @ ''-'' @
          [''0123456789'' ! (year today div 1000), ''0123456789'' ! (year today div 100 mod 10),
           ''0123456789'' ! (year today div 10 mod 10), ''0123456789'' ! (year today mod 10)] @
          ''_BinWidth_'' @
          (case binwidth of
             PNone \<Rightarrow> ''None''
           | PBool b \<Rightarrow> (if b then ''True'' else ''False'')
           | PInt i \<Rightarrow> (if i < 0 then ''-'' else []) @ digits
           | PFloat FNaN \<Rightarrow> ''nan''
           | PFloat (FInf negative) \<Rightarrow> (if negative then ''-inf'' else ''inf'')
           | PFloat (FFinite negative ds decpt) \<Rightarrow>
               (if negative then ''-'' else []) @
               (if - 4 < decpt \<and> decpt \<le> 16 then
                  (if decpt \<le> 0 then ''0.'' @ replicate (nat (- decpt)) (CHR ''0'') @ ds
                   else if nat decpt < length ds then take (nat decpt) ds @ ''.'' @ drop (nat decpt) ds
                   else ds @ replicate (nat decpt - length ds) (CHR ''0'') @ ''.0'')
                else take 1 ds @ (if 1 < length ds then ''.'' @ drop 1 ds else []) @ ''e'' @
                  (if decpt < 1 then ''-'' else ''+'') @ (if \<bar>decpt - 1\<bar> < 10 then ''0'' else []) @ digits)
           | PStr s \<Rightarrow> s))) \<and>
    (whr = ''/out'' \<and> today = \<lparr>year = 2024, month_of = January, day = 5\<rparr> \<and> binwidth = PInt 25 \<longrightarrow>
       verbose_output_location safe_load today fsys whr parameters = Inr ''/out/05-January-2024_BinWidth_25'')"
proof (intro conjI impI)
  from assms(1-5) have g: "get_parameter_value safe_load fsys parameters ''setting'' ''binWidth'' = Inr binwidth"
    by (simp add: get_parameter_value_def object_exists_def lookup_field_def)
  then have v: "verbose_output_location safe_load today fsys whr parameters =
      Inr (path_join whr (date_today today @ ''_BinWidth_'' @ py_str binwidth))"
    by (simp add: verbose_output_location_def)
  have r: "verbose_output_location safe_load today fsys whr parameters =
      Inr ((if whr = [] \<or> last whr = CHR ''/'' then whr else whr @ ''/'') @
        date_today today @ ''_BinWidth_'' @ py_str binwidth)"
    unfolding v path_join_dated ..
  define n where "n = (case binwidth of PInt i \<Rightarrow> nat \<bar>i\<bar>
    | PFloat (FFinite negative ds decpt) \<Rightarrow> nat \<bar>decpt - 1\<bar> | _ \<Rightarrow> 0)"
  define digits where "digits = dec n"
  have d1: "digits \<noteq> []" by (simp add: digits_def dec_not_empty)
  have d2: "set digits \<subseteq> set ''0123456789''" unfolding digits_def by (rule dec_digits)
  have d3: "hd digits = CHR ''0'' \<longrightarrow> digits = ''0''" unfolding digits_def using dec_leading by blast
  have d4: "foldl (\<lambda>a c. 10 * a + (of_char c - 48)) 0 digits = n" unfolding digits_def by (rule dec_value)
  from assms(6) have day: "two_digits (day today) =
      [''0123456789'' ! (day today div 10), ''0123456789'' ! (day today mod 10)]"
    by (intro two_digits_text) simp
  from assms(7,8) have yr: "dec (year today) =
      [''0123456789'' ! (year today div 1000), ''0123456789'' ! (year today div 100 mod 10),
       ''0123456789'' ! (year today div 10 mod 10), ''0123456789'' ! (year today mod 10)]"
    by (rule year_text)
  have dt: "date_today today =
      [''0123456789'' ! (day today div 10), ''0123456789'' ! (day today mod 10)] @ ''-'' @
      (case month_of today of January \<Rightarrow> ''January'' | February \<Rightarrow> ''February''
       | March \<Rightarrow> ''March'' | April \<Rightarrow> ''April'' | May \<Rightarrow> ''May'' | June \<Rightarrow> ''June''
       | July \<Rightarrow> ''July'' | August \<Rightarrow> ''August'' | September \<Rightarrow> ''September''
       | October \<Rightarrow> ''October'' | November \<Rightarrow> ''November'' | December \<Rightarrow> ''December'') @ ''-'' @
      [''0123456789'' ! (year today div 1000), ''0123456789'' ! (year today div 100 mod 10),
       ''0123456789'' ! (year today div 10 mod 10), ''0123456789'' ! (year today mod 10)]"
    unfolding date_today_def day yr month_name_text ..
  have val: "py_str binwidth =
      (case binwidth of
         PNone \<Rightarrow> ''None''
       | PBool b \<Rightarrow> (if b then ''True'' else ''False'')
       | PInt i \<Rightarrow> (if i < 0 then ''-'' else []) @ digits
       | PFloat FNaN \<Rightarrow> ''nan''
       | PFloat (FInf negative) \<Rightarrow> (if negative then ''-inf'' else ''inf'')
       | PFloat (FFinite negative ds decpt) \<Rightarrow>
           (if negative then ''-'' else []) @
           (if - 4 < decpt \<and> decpt \<le> 16 then
              (if decpt \<le> 0 then ''0.'' @ replicate (nat (- decpt)) (CHR ''0'') @ ds
               else if nat decpt < length ds then take (nat decpt) ds @ ''.'' @ drop (nat decpt) ds
               else ds @ replicate (nat decpt - length ds) (CHR ''0'') @ ''.0'')
            else take 1 ds @ (if 1 < length ds then ''.'' @ drop 1 ds else []) @ ''e'' @
              (if decpt < 1 then ''-'' else ''+'') @ (if \<bar>decpt - 1\<bar> < 10 then ''0'' else []) @ digits)
       | PStr s \<Rightarrow> s)"
  proof (cases binwidth)
    case (PInt i)
    then have "n = nat \<bar>i\<bar>" by (simp add: n_def)
    moreover have "i < 0 \<Longrightarrow> nat (- i) = nat \<bar>i\<bar>" and "\<not> i < 0 \<Longrightarrow> nat i = nat \<bar>i\<bar>" by simp_all
    ultimately show ?thesis using PInt by (simp add: str_int_def digits_def)
  next
    case (PFloat x)
    show ?thesis
    proof (cases x)
      case (FFinite negative ds decpt)
      with PFloat have "n = nat \<bar>decpt - 1\<bar>" by (simp add: n_def)
      with PFloat FFinite show ?thesis by (auto simp: exponent_text_def digits_def)
    qed (simp_all add: PFloat)
  qed simp_all
  show "\<exists>digits.
      digits \<noteq> [] \<and> set digits \<subseteq> set ''0123456789'' \<and> (hd digits = CHR ''0'' \<longrightarrow> digits = ''0'') \<and>
      foldl (\<lambda>a c. 10 * a + (of_char c - 48)) 0 digits =
        (case binwidth of PInt i \<Rightarrow> nat \<bar>i\<bar> | PFloat (FFinite negative ds decpt) \<Rightarrow> nat \<bar>decpt - 1\<bar> | _ \<Rightarrow> 0) \<and>
      verbose_output_location safe_load today fsys whr parameters =
        Inr ((if whr = [] \<or> last whr = CHR ''/'' then whr else whr @ ''/'') @
          [''0123456789'' ! (day today div 10), ''0123456789'' ! (day today mod 10)] @ ''-'' @
          (case month_of today of January \<Rightarrow> ''January'' | February \<Rightarrow> ''February''
           | March \<Rightarrow> ''March'' | April \<Rightarrow> ''April'' | May \<Rightarrow> ''May'' | June \<Rightarrow> ''June''
           | July \<Rightarrow> ''July'' | August \<Rightarrow> ''August'' | September \<Rightarrow> ''September''
           | October \<Rightarrow> ''October'' | November \<Rightarrow> ''November'' | December \<Rightarrow> ''December'') @ ''-'' @
          [''0123456789'' ! (year today div 1000), ''0123456789'' ! (year today div 100 mod 10),
           ''0123456789'' ! (year today div 10 mod 10), ''0123456789'' ! (year today mod 10)] @
          ''_BinWidth_'' @
          (case binwidth of
             PNone \<Rightarrow> ''None''
           | PBool b \<Rightarrow> (if b then ''True'' else ''False'')
           | PInt i \<Rightarrow> (if i < 0 then ''-'' else []) @ digits
           | PFloat FNaN \<Rightarrow> ''nan''
           | PFloat (FInf negative) \<Rightarrow> (if negative then ''-inf'' else ''inf'')
           | PFloat (FFinite negative ds decpt) \<Rightarrow>
               (if negative then ''-'' else []) @
               (if - 4 < decpt \<and> decpt \<le> 16 then
                  (if decpt \<le> 0 then ''0.'' @ replicate (nat (- decpt)) (CHR ''0'') @ ds
                   else if nat decpt < length ds then take (nat decpt) ds @ ''.'' @ drop (nat decpt) ds
                   else ds @ replicate (nat decpt - length ds) (CHR ''0'') @ ''.0'')
                else take 1 ds @ (if 1 < length ds then ''.'' @ drop 1 ds else []) @ ''e'' @
                  (if decpt < 1 then ''-'' else ''+'') @ (if \<bar>decpt - 1\<bar> < 10 then ''0'' else []) @ digits)
           | PStr s \<Rightarrow> s))"
  proof (intro exI conjI)
    show "digits \<noteq> []" by (rule d1)
    show "set digits \<subseteq> set ''0123456789''" by (rule d2)
    show "hd digits = CHR ''0'' \<longrightarrow> digits = ''0''" by (rule d3)
    show "foldl (\<lambda>a c. 10 * a + (of_char c - 48)) 0 digits =
        (case binwidth of PInt i \<Rightarrow> nat \<bar>i\<bar> | PFloat (FFinite negative ds decpt) \<Rightarrow> nat \<bar>decpt - 1\<bar> | _ \<Rightarrow> 0)"
      unfolding d4 n_def ..
    show "verbose_output_location safe_load today fsys whr parameters =
        Inr ((if whr = [] \<or> last whr = CHR ''/'' then whr else whr @ ''/'') @
          [''0123456789'' ! (day today div 10), ''0123456789'' ! (day today mod 10)] @ ''-'' @
          (case month_of today of January \<Rightarrow> ''January'' | February \<Rightarrow> ''February''
           | March \<Rightarrow> ''March'' | April \<Rightarrow> ''April'' | May \<Rightarrow> ''May'' | June \<Rightarrow> ''June''
           | July \<Rightarrow> ''July'' | August \<Rightarrow> ''August'' | September \<Rightarrow> ''September''
           | October \<Rightarrow> ''October'' | November \<Rightarrow> ''November'' | December \<Rightarrow> ''December'') @ ''-'' @
          [''0123456789'' ! (year today div 1000), ''0123456789'' ! (year today div 100 mod 10),
           ''0123456789'' ! (year today div 10 mod 10), ''0123456789'' ! (year today mod 10)] @
          ''_BinWidth_'' @
          (case binwidth of
             PNone \<Rightarrow> ''None''
           | PBool b \<Rightarrow> (if b then ''True'' else ''False'')
           | PInt i \<Rightarrow> (if i < 0 then ''-'' else []) @ digits
           | PFloat FNaN \<Rightarrow> ''nan''
           | PFloat (FInf negative) \<Rightarrow> (if negative then ''-inf'' else ''inf'')
           | PFloat (FFinite negative ds decpt) \<Rightarrow>
               (if negative then ''-'' else []) @
               (if - 4 < decpt \<and> decpt \<le> 16 then
                  (if decpt \<le> 0 then ''0.'' @ replicate (nat (- decpt)) (CHR ''0'') @ ds
                   else if nat decpt < length ds then take (nat decpt) ds @ ''.'' @ drop (nat decpt) ds
                   else ds @ replicate (nat decpt - length ds) (CHR ''0'') @ ''.0'')
                else take 1 ds @ (if 1 < length ds then ''.'' @ drop 1 ds else []) @ ''e'' @
                  (if decpt < 1 then ''-'' else ''+'') @ (if \<bar>decpt - 1\<bar> < 10 then ''0'' else []) @ digits)
           | PStr s \<Rightarrow> s))"
      unfolding r val dt by simp
  qed
  assume "whr = ''/out'' \<and> today = \<lparr>year = 2024, month_of = January, day = 5\<rparr> \<and> binwidth = PInt 25"
  with v show "verbose_output_location safe_load today fsys whr parameters = Inr ''/out/05-January-2024_BinWidth_25''"
    by (simp add: path_join_def date_today_def two_digits_def dec.simps str_int_def)
qed


theorem verbose_output_root_witness:
  "verbose_output_location example_load example_date example_fs ''/out'' ''/in/params.yaml'' =
     Inr ''/out/05-January-2024_BinWidth_25'' \<and>
   verbose_output_location example_load \<lparr>year = 2025, month_of = November, day = 23\<rparr>
     (example_fs\<lparr>content := (content example_fs)(''/in/params.yaml'' \<mapsto> ''setting: {binWidth: 0.5}'')\<rparr>)
     ''results/'' ''/in/params.yaml'' = Inr ''results/23-November-2025_BinWidth_0.5''"
proof
  have h1: "path_exists example_fs ''/in/params.yaml''"
    and h2: "content example_fs ''/in/params.yaml'' = Some ''setting: {binWidth: 25}''"
    by (simp_all add: example_fs_def)
  have h3: "example_load ''setting: {binWidth: 25}'' = Inr (YMap [''setting'' \<mapsto> SMap [''binWidth'' \<mapsto> PInt 25]])"
    by (simp add: example_load_def)
  have h4: "[''setting'' \<mapsto> SMap [''binWidth'' \<mapsto> PInt 25]] ''setting'' = Some (SMap [''binWidth'' \<mapsto> PInt 25])"
    and h5: "[''binWidth'' \<mapsto> PInt 25] ''binWidth'' = Some (PInt 25)"
    by simp_all
  have h6: "day example_date \<le> 31" and h7: "1000 \<le> year example_date" and h8: "year example_date \<le> 9999"
    by (simp_all add: example_date_def)
  have d: "''/out'' = ''/out'' \<and> example_date = \<lparr>year = 2024, month_of = January, day = 5\<rparr> \<and> PInt 25 = PInt 25"
    by (simp add: example_date_def)
  from verbose_output_root [where safe_load = example_load and whr = "''/out''" and today = example_date,
      OF h1 h2 h3 h4 h5 h6 h7 h8, THEN conjunct2, rule_format, OF d]
  show "verbose_output_location example_load example_date example_fs ''/out'' ''/in/params.yaml'' =
     Inr ''/out/05-January-2024_BinWidth_25''" .
next
  let ?fs = "example_fs\<lparr>content := (content example_fs)(''/in/params.yaml'' \<mapsto> ''setting: {binWidth: 0.5}'')\<rparr>"
  let ?today = "\<lparr>year = 2025, month_of = November, day = 23\<rparr>"
  have k1: "path_exists ?fs ''/in/params.yaml''"
    and k2: "content ?fs ''/in/params.yaml'' = Some ''setting: {binWidth: 0.5}''"
    by (simp_all add: example_fs_def)
  have k3: "example_load ''setting: {binWidth: 0.5}'' =
      Inr (YMap [''setting'' \<mapsto> SMap [''binWidth'' \<mapsto> PFloat (FFinite False ''5'' 0)]])"
    by (simp add: example_load_def)
  have k4: "[''setting'' \<mapsto> SMap [''binWidth'' \<mapsto> PFloat (FFinite False ''5'' 0)]] ''setting'' =
      Some (SMap [''binWidth'' \<mapsto> PFloat (FFinite False ''5'' 0)])"
    and k5: "[''binWidth'' \<mapsto> PFloat (FFinite False ''5'' 0)] ''binWidth'' = Some (PFloat (FFinite False ''5'' 0))"
    by simp_all
  have k6: "day ?today \<le> 31" and k7: "1000 \<le> year ?today" and k8: "year ?today \<le> 9999"
    by simp_all
  from verbose_output_root [where safe_load = example_load and whr = "''results/''" and today = ?today,
      OF k1 k2 k3 k4 k5 k6 k7 k8, THEN conjunct1]
  show "verbose_output_location example_load ?today ?fs ''results/'' ''/in/params.yaml'' =
     Inr ''results/23-November-2025_BinWidth_0.5''"
    by auto
qed

subsection \<open>The mapping parser\<close>

lemma split_from_single:
  "c \<notin> set key \<Longrightarrow> split_from [c] cur (key @ c # rest) = (cur @ key) # split_from [c] [] rest"
proof (induction key arbitrary: cur)
  case Nil
  show ?case by (subst split_from.simps) simp
next
  case (Cons a key)
  then have "split_from [c] (cur @ [a]) (key @ c # rest) = ((cur @ [a]) @ key) # split_from [c] [] rest"
    by simp
  with Cons.prems show ?case by (subst split_from.simps) auto
qed

lemma split_from_none:
  "c \<notin> set s \<Longrightarrow> split_from [c] cur s = [cur @ s]"
proof (induction s arbitrary: cur)
  case Nil
  show ?case by (subst split_from.simps) simp
next
  case (Cons a s)
  then have "split_from [c] (cur @ [a]) s = [(cur @ [a]) @ s]" by simp
  with Cons.prems show ?case by (subst split_from.simps) auto
qed

lemma py_split_line:
  "c \<notin> set key \<Longrightarrow> c \<notin> set rest \<Longrightarrow> py_split (key @ c # rest) [c] = Inr [key, rest]"
  by (simp add: py_split_def split_from_single split_from_none)

lemma isspace_newline: "isspace (CHR ''\<newline>'')"
  by (simp add: isspace_def)

lemma strip_newline: "strip (v @ ''\<newline>'') = strip v"
proof (cases "\<forall>x\<in>set v. isspace x")
  case True
  from True have a: "dropWhile isspace v = []"
    unfolding dropWhile_eq_Nil_conv .
  from True isspace_newline have "\<forall>x\<in>set (v @ ''\<newline>''). isspace x"
    by simp
  then have b: "dropWhile isspace (v @ ''\<newline>'') = []"
    unfolding dropWhile_eq_Nil_conv .
  show ?thesis unfolding strip_def a b ..
next
  case False
  then obtain x where "x \<in> set v" "\<not> isspace x" by blast
  then have c: "dropWhile isspace (v @ ''\<newline>'') = dropWhile isspace v @ ''\<newline>''"
    by (rule dropWhile_append1)
  have "dropWhile isspace (rev (dropWhile isspace v @ ''\<newline>'')) = dropWhile isspace (rev (dropWhile isspace v))"
    using isspace_newline by simp
  then show ?thesis unfolding strip_def c by simp
qed

lemma lines_from_terminated:
  "\<forall>l\<in>set ls. CHR ''\<newline>'' \<notin> set l \<Longrightarrow>
   lines_from [] (concat (map (\<lambda>l. l @ ''\<newline>'') ls)) = map (\<lambda>l. l @ ''\<newline>'') ls"
proof (induction ls)
  case Nil
  show ?case by simp
next
  case (Cons l ls)
  then have "CHR ''\<newline>'' \<notin> set l" by simp
  from lines_from_no_newline [OF this, of "[]" "concat (map (\<lambda>l. l @ ''\<newline>'') ls)"] Cons
  show ?case by simp
qed

lemma map_of_dict_set: "map_of (dict_set k v d) = (map_of d)(k \<mapsto> v)"
  by (induction d) (auto simp: fun_eq_iff)

lemma keys_dict_set: "fst ` set (dict_set k v d) = insert k (fst ` set d)"
proof (induction d)
  case Nil
  show ?case by simp
next
  case (Cons p d)
  obtain k' v' where p: "p = (k', v')" by (cases p)
  show ?case
  proof (cases "k' = k")
    case True
    with p show ?thesis by simp
  next
    case False
    with p Cons.IH show ?thesis by (simp add: insert_commute)
  qed
qed

lemma distinct_dict_set: "distinct (map fst d) \<Longrightarrow> distinct (map fst (dict_set k v d))"
proof (induction d)
  case Nil
  show ?case by simp
next
  case (Cons p d)
  obtain k' v' where p: "p = (k', v')" by (cases p)
  show ?case
  proof (cases "k' = k")
    case True
    with p Cons.prems show ?thesis by simp
  next
    case False
    with p Cons show ?thesis by (simp add: keys_dict_set)
  qed
qed

lemma dict_set_new: "k \<notin> fst ` set d \<Longrightarrow> dict_set k v d = d @ [(k, v)]"
  by (induction d) auto

lemma parse_lines_rows:
  "c \<noteq> CHR ''\<newline>'' \<Longrightarrow>
   \<forall>(key, n, val)\<in>set rows. c \<notin> set key \<and> c \<notin> set val \<and> py_int (strip key) = Some n \<Longrightarrow>
   parse_lines [c] (map (\<lambda>(key, n, val). (key @ c # val) @ ''\<newline>'') rows) d0 =
     Inr (foldl (\<lambda>d (key, n, val). dict_set n (strip val) d) d0 rows)"
proof (induction rows arbitrary: d0)
  case Nil
  show ?case by simp
next
  case (Cons row rows)
  obtain key n val where row: "row = (key, n, val)" by (cases row)
  with Cons.prems have k: "c \<notin> set key" "c \<notin> set (val @ ''\<newline>'')" "py_int (strip key) = Some n"
    by auto
  from Cons.prems have "\<forall>(key, n, val)\<in>set rows. c \<notin> set key \<and> c \<notin> set val \<and> py_int (strip key) = Some n"
    by simp
  from Cons.IH [OF Cons.prems(1) this] py_split_line [OF k(1,2)] k(3) row
  show ?case by (simp add: strip_newline)
qed

lemma rows_fold_map_of:
  "map_of (foldl (\<lambda>d (key, n, val). dict_set n (strip val) d) d0 rows) =
     map_of d0 ++ map_of (rev (map (\<lambda>(key, n, val). (n, strip val)) rows))"
proof (induction rows arbitrary: d0)
  case Nil
  show ?case by simp
next
  case (Cons row rows)
  obtain key n val where row: "row = (key, n, val)" by (cases row)
  let ?r = "map_of (rev (map (\<lambda>(key, n, val). (n, strip val)) rows))"
  have "map_of (foldl (\<lambda>d (key, n, val). dict_set n (strip val) d) d0 (row # rows)) =
      map_of (foldl (\<lambda>d (key, n, val). dict_set n (strip val) d) (dict_set n (strip val) d0) rows)"
    using row by simp
  also have "\<dots> = map_of (dict_set n (strip val) d0) ++ ?r"
    by (rule Cons.IH)
  also have "\<dots> = (map_of d0)(n \<mapsto> strip val) ++ ?r"
    by (simp only: map_of_dict_set)
  also have "\<dots> = map_of d0 ++ ([n \<mapsto> strip val] ++ ?r)"
    by (auto simp: fun_eq_iff map_add_def split: option.splits)
  also have "[n \<mapsto> strip val] ++ ?r = map_of (rev (map (\<lambda>(key, n, val). (n, strip val)) (row # rows)))"
    using row by simp
  finally show ?case .
qed

lemma rows_fold_distinct_keys:
  "distinct (map fst d0) \<Longrightarrow>
   distinct (map fst (foldl (\<lambda>d (key, n, val). dict_set n (strip val) d) d0 rows))"
proof (induction rows arbitrary: d0)
  case Nil
  then show ?case by simp
next
  case (Cons row rows)
  obtain key n val where row: "row = (key, n, val)" by (cases row)
  from Cons.IH [OF distinct_dict_set [OF Cons.prems, of n "strip val"]] row show ?case by simp
qed

lemma rows_fold_fresh:
  "distinct (map (\<lambda>(key, n, val). n) rows) \<Longrightarrow>
   \<forall>(key, n, val)\<in>set rows. n \<notin> fst ` set d0 \<Longrightarrow>
   foldl (\<lambda>d (key, n, val). dict_set n (strip val) d) d0 rows =
     d0 @ map (\<lambda>(key, n, val). (n, strip val)) rows"
proof (induction rows arbitrary: d0)
  case Nil
  show ?case by simp
next
  case (Cons row rows)
  obtain key n val where row: "row = (key, n, val)" by (cases row)
  with Cons.prems have fresh: "n \<notin> fst ` set d0" by simp
  from Cons.prems row have d: "distinct (map (\<lambda>(key, n, val). n) rows)" by simp
  from Cons.prems row have "\<forall>(k', m, v')\<in>set rows. m \<notin> fst ` set (d0 @ [(n, strip val)])"
    by (auto simp: image_iff)
  from Cons.IH [OF d this] row fresh show ?case
    by (simp add: dict_set_new)
qed

lemma dict_from_file_rows:
  assumes "content fsys filepath = Some (concat (map (\<lambda>(key, n, val). key @ c # val @ ''\<newline>'') rows))"
    and "c \<noteq> CHR ''\<newline>''"
    and "\<forall>(key, n, val)\<in>set rows. c \<notin> set key \<and> c \<notin> set val \<and> CHR ''\<newline>'' \<notin> set key \<and>
           CHR ''\<newline>'' \<notin> set val \<and> py_int (strip key) = Some n"
  shows "dict_from_file fsys filepath [c] =
     Inr (foldl (\<lambda>d (key, n, val). dict_set n (strip val) d) [] rows)"
proof -
  have flat: "concat (map (\<lambda>(key, n, val). key @ c # val @ ''\<newline>'') rows) =
      concat (map (\<lambda>l. l @ ''\<newline>'') (map (\<lambda>(key, n, val). key @ c # val) rows))"
    by (induction rows) auto
  from assms(2,3) have "\<forall>l\<in>set (map (\<lambda>(key, n, val). key @ c # val) rows). CHR ''\<newline>'' \<notin> set l"
    by auto
  from lines_from_terminated [OF this]
  have "file_lines (concat (map (\<lambda>(key, n, val). key @ c # val @ ''\<newline>'') rows)) =
      map (\<lambda>(key, n, val). (key @ c # val) @ ''\<newline>'') rows"
    unfolding flat file_lines_def by (simp add: comp_def case_prod_unfold)
  moreover from assms(3) have ok: "\<forall>(key, n, val)\<in>set rows. c \<notin> set key \<and> c \<notin> set val \<and> py_int (strip key) = Some n"
    by auto
  ultimately show ?thesis
    using assms(1) parse_lines_rows [OF assms(2) ok, of "[]"] by (simp add: dict_from_file_def)
qed


text \<open>
  C8. For a mask-values file whose lines are each key, separator, value and a line feed
  (a one-character separator that occurs in no key and no value, keys that \<^verbatim>\<open>int\<close>
  accepts after trimming), the parser returns without error a mapping that binds each
  integer key to the trimmed value of the last line with that key; when the keys are
  all different, the mapping is exactly the keys with their trimmed values, in the order
  of the file. The text \<^verbatim>\<open>1:amygdala\n14 : hippocampus\n\<close> with separator \<^verbatim>\<open>:\<close> gives
  \<^verbatim>\<open>{1: "amygdala", 14: "hippocampus"}\<close>.
\<close>

theorem mask_mapping_parsed:
  "(content fsys filepath = Some (concat (map (\<lambda>(key, n, val). key @ c # val @ ''\<newline>'') rows)) \<and>
    c \<noteq> CHR ''\<newline>'' \<and>
    (\<forall>(key, n, val)\<in>set rows. c \<notin> set key \<and> c \<notin> set val \<and> CHR ''\<newline>'' \<notin> set key \<and>
         CHR ''\<newline>'' \<notin> set val \<and> py_int (strip key) = Some n)
    \<longrightarrow> (\<exists>d. dict_from_file fsys filepath [c] = Inr d \<and>
             map_of d = map_of (rev (map (\<lambda>(key, n, val). (n, strip val)) rows)) \<and>
             (distinct (map (\<lambda>(key, n, val). n) rows)
              \<longrightarrow> d = map (\<lambda>(key, n, val). (n, strip val)) rows))) \<and>
   (content fsys filepath = Some ''1:amygdala\<newline>14 : hippocampus\<newline>''
    \<longrightarrow> dict_from_file fsys filepath '':'' = Inr [(1, ''amygdala''), (14, ''hippocampus'')])"
proof (intro conjI impI)
  assume a: "content fsys filepath = Some (concat (map (\<lambda>(key, n, val). key @ c # val @ ''\<newline>'') rows)) \<and>
    c \<noteq> CHR ''\<newline>'' \<and>
    (\<forall>(key, n, val)\<in>set rows. c \<notin> set key \<and> c \<notin> set val \<and> CHR ''\<newline>'' \<notin> set key \<and>
         CHR ''\<newline>'' \<notin> set val \<and> py_int (strip key) = Some n)"
  let ?d = "foldl (\<lambda>d (key, n, val). dict_set n (strip val) d) [] rows"
  from a have r: "dict_from_file fsys filepath [c] = Inr ?d"
    by (intro dict_from_file_rows) blast+
  have m: "map_of ?d = map_of (rev (map (\<lambda>(key, n, val). (n, strip val)) rows))"
    by (simp add: rows_fold_map_of)
  have f: "distinct (map (\<lambda>(key, n, val). n) rows) \<longrightarrow> ?d = map (\<lambda>(key, n, val). (n, strip val)) rows"
    using rows_fold_fresh [of rows "[]"] by auto
  from r m f show "\<exists>d. dict_from_file fsys filepath [c] = Inr d \<and>
             map_of d = map_of (rev (map (\<lambda>(key, n, val). (n, strip val)) rows)) \<and>
             (distinct (map (\<lambda>(key, n, val). n) rows)
              \<longrightarrow> d = map (\<lambda>(key, n, val). (n, strip val)) rows)"
    by blast
next
  assume "content fsys filepath = Some ''1:amygdala\<newline>14 : hippocampus\<newline>''"
  then show "dict_from_file fsys filepath '':'' = Inr [(1, ''amygdala''), (14, ''hippocampus'')]"
    by (simp add: dict_from_file_def file_lines_def py_split_def split_from.simps py_int_def
        strip_def isspace_def digit_of_def)
qed

theorem mask_mapping_parsed_witness:
  "dict_from_file example_fs ''/in/maskvalues.txt'' '':'' = Inr [(1, ''amygdala''), (14, ''hippocampus'')]"
proof -
  let ?rows = "[(''1'', 1::int, ''amygdala''), (''14 '', 14, '' hippocampus'')]"
  have h: "content example_fs ''/in/maskvalues.txt'' =
      Some (concat (map (\<lambda>(key, n, val). key @ CHR '':'' # val @ ''\<newline>'') ?rows)) \<and>
    CHR '':'' \<noteq> CHR ''\<newline>'' \<and>
    (\<forall>(key, n, val)\<in>set ?rows. CHR '':'' \<notin> set key \<and> CHR '':'' \<notin> set val \<and> CHR ''\<newline>'' \<notin> set key \<and>
         CHR ''\<newline>'' \<notin> set val \<and> py_int (strip key) = Some n)"
    by (simp add: example_fs_def py_int_def strip_def isspace_def digit_of_def)
  have d: "distinct (map (\<lambda>(key, n, val). n) ?rows)" by simp
  have s: "map (\<lambda>(key, n, val). (n, strip val)) ?rows = [(1, ''amygdala''), (14, ''hippocampus'')]"
    by (simp add: strip_def isspace_def)
  from mask_mapping_parsed [of example_fs "''/in/maskvalues.txt''" "CHR '':''" ?rows] h d
  have "dict_from_file example_fs ''/in/maskvalues.txt'' '':'' = Inr (map (\<lambda>(key, n, val). (n, strip val)) ?rows)"
    by blast
  then show ?thesis unfolding s .
qed

text \<open>
  C10. When two or more lines of such a file carry the same integer key, the parser
  raises nothing and returns a mapping in which the key occurs once and is bound to the
  trimmed value of the last of those lines: a later line silently replaces the value of
  an earlier one.
\<close>

theorem duplicate_key_last_wins:
  "content fsys filepath = Some (concat (map (\<lambda>(key, n, val). key @ c # val @ ''\<newline>'') rows)) \<Longrightarrow>
   c \<noteq> CHR ''\<newline>'' \<Longrightarrow>
   \<forall>(key, n, val)\<in>set rows. c \<notin> set key \<and> c \<notin> set val \<and> CHR ''\<newline>'' \<notin> set key \<and>
         CHR ''\<newline>'' \<notin> set val \<and> py_int (strip key) = Some n \<Longrightarrow>
   rows = before @ (key1, k, val1) # middle @ (key2, k, val2) # after \<Longrightarrow>
   \<forall>(key, n, val)\<in>set after. n \<noteq> k \<Longrightarrow>
   \<exists>d. dict_from_file fsys filepath [c] = Inr d \<and> map_of d k = Some (strip val2) \<and>
       distinct (map fst d) \<and> length (filter (\<lambda>(n, name). n = k) d) = 1"
proof -
  assume a: "content fsys filepath = Some (concat (map (\<lambda>(key, n, val). key @ c # val @ ''\<newline>'') rows))"
    "c \<noteq> CHR ''\<newline>''"
    "\<forall>(key, n, val)\<in>set rows. c \<notin> set key \<and> c \<notin> set val \<and> CHR ''\<newline>'' \<notin> set key \<and>
         CHR ''\<newline>'' \<notin> set val \<and> py_int (strip key) = Some n"
    and rows: "rows = before @ (key1, k, val1) # middle @ (key2, k, val2) # after"
    and later: "\<forall>(key, n, val)\<in>set after. n \<noteq> k"
  let ?d = "foldl (\<lambda>d (key, n, val). dict_set n (strip val) d) [] rows"
  let ?pair = "\<lambda>(key, n, val). (n, strip val)"
  from a have r: "dict_from_file fsys filepath [c] = Inr ?d"
    by (rule dict_from_file_rows)
  have m: "map_of ?d = map_of (rev (map ?pair rows))"
    by (simp add: rows_fold_map_of)
  from later have "k \<notin> fst ` set (rev (map ?pair after))"
    by (auto simp: image_iff)
  then have n: "map_of (rev (map ?pair after)) k = None"
    by (simp add: map_of_eq_None_iff)
  have "rev (map ?pair rows) = rev (map ?pair after) @ (k, strip val2) # rev (map ?pair (before @ (key1, k, val1) # middle))"
    by (simp add: rows)
  then have "map_of (rev (map ?pair rows)) k = Some (strip val2)"
    using n by (simp add: map_add_def)
  with m have v: "map_of ?d k = Some (strip val2)" by simp
  have dis: "distinct (map fst ?d)"
    by (rule rows_fold_distinct_keys) simp
  from v have "(k, strip val2) \<in> set ?d" by (rule map_of_SomeD)
  then obtain xs ys where split: "?d = xs @ (k, strip val2) # ys"
    by (auto simp: in_set_conv_decomp)
  with dis have "k \<notin> fst ` set xs" "k \<notin> fst ` set ys" by auto
  then have "filter (\<lambda>(n, name). n = k) xs = []" "filter (\<lambda>(n, name). n = k) ys = []"
    by (auto simp: filter_empty_conv image_iff)
  with split have one: "length (filter (\<lambda>(n, name). n = k) ?d) = 1" by simp
  from r v dis one show ?thesis by blast
qed

theorem duplicate_key_last_wins_witness:
  "\<exists>d. dict_from_file (example_fs\<lparr>content := [''/in/maskvalues.txt'' \<mapsto> ''1:amygdala\<newline>14:pallidum\<newline>1 : hippocampus\<newline>'']\<rparr>)
      ''/in/maskvalues.txt'' '':'' = Inr d \<and> map_of d 1 = Some ''hippocampus'' \<and>
      distinct (map fst d) \<and> length (filter (\<lambda>(n, name). n = 1) d) = 1"
proof -
  let ?fs = "example_fs\<lparr>content := [''/in/maskvalues.txt'' \<mapsto> ''1:amygdala\<newline>14:pallidum\<newline>1 : hippocampus\<newline>'']\<rparr>"
  let ?rows = "[(''1'', 1::int, ''amygdala''), (''14'', 14, ''pallidum''), (''1 '', 1, '' hippocampus'')]"
  have h1: "content ?fs ''/in/maskvalues.txt'' =
      Some (concat (map (\<lambda>(key, n, val). key @ CHR '':'' # val @ ''\<newline>'') ?rows))"
    by simp
  have h2: "CHR '':'' \<noteq> CHR ''\<newline>''" by simp
  have h3: "\<forall>(key, n, val)\<in>set ?rows. CHR '':'' \<notin> set key \<and> CHR '':'' \<notin> set val \<and> CHR ''\<newline>'' \<notin> set key \<and>
         CHR ''\<newline>'' \<notin> set val \<and> py_int (strip key) = Some n"
    by (simp add: py_int_def strip_def isspace_def digit_of_def)
  have h4: "?rows = [] @ (''1'', 1, ''amygdala'') # [(''14'', 14, ''pallidum'')] @ (''1 '', 1, '' hippocampus'') # []"
    by simp
  have h5: "\<forall>(key, n, val)\<in>set ([] :: (string \<times> int \<times> string) list). n \<noteq> 1" by simp
  have s: "strip '' hippocampus'' = ''hippocampus''"
    by (simp add: strip_def isspace_def)
  from duplicate_key_last_wins [OF h1 h2 h3 h4 h5] show ?thesis
    unfolding s by simp
qed

subsection \<open>Malformed input\<close>

lemma parse_lines_bad:
  "\<forall>l\<in>set good. \<exists>key val n. py_split l '':'' = Inr [key, val] \<and> py_int (strip key) = Some n \<Longrightarrow>
   CHR '':'' \<notin> set bad \<or> (\<exists>key val. py_split bad '':'' = Inr [key, val] \<and> py_int (strip key) = None) \<Longrightarrow>
   parse_lines '':'' (good @ bad # rest) d0 = Inl ValueError"
proof (induction good arbitrary: d0)
  case Nil
  from Nil.prems(2) show ?case
  proof
    assume "CHR '':'' \<notin> set bad"
    then have "py_split bad '':'' = Inr [bad]"
      by (simp add: py_split_def split_from_none)
    then show ?thesis by simp
  next
    assume "\<exists>key val. py_split bad '':'' = Inr [key, val] \<and> py_int (strip key) = None"
    then show ?thesis by auto
  qed
next
  case (Cons l good)
  then obtain key val n where "py_split l '':'' = Inr [key, val]" "py_int (strip key) = Some n"
    by auto
  moreover from Cons.prems have "\<forall>l\<in>set good. \<exists>key val n. py_split l '':'' = Inr [key, val] \<and> py_int (strip key) = Some n"
    by simp
  note Cons.IH [OF this Cons.prems(2)]
  ultimately show ?case by simp
qed

text \<open>
  C9. The claim that every malformed mapping or parameter file ends the run fails for
  the parameter file: a document without the \<open>setting\<close> section or without its
  \<open>binWidth\<close> field raises \<^verbatim>\<open>KeyError\<close>, which \<^verbatim>\<open>get_parameter_value\<close> catches; it returns
  \<^verbatim>\<open>None\<close> and the run goes on, with an output root named \<^verbatim>\<open>..._BinWidth_None\<close>.
\<close>

theorem missing_binwidth_counterexample:
  "get_parameter_value example_load
     (example_fs\<lparr>content := (content example_fs)(''/in/params.yaml'' \<mapsto> ''setting: {}'')\<rparr>)
     ''/in/params.yaml'' ''setting'' ''binWidth'' = Inr PNone \<and>
   verbose_output_location example_load example_date
     (example_fs\<lparr>content := (content example_fs)(''/in/params.yaml'' \<mapsto> ''setting: {}'')\<rparr>)
     ''/out'' ''/in/params.yaml'' = Inr ''/out/05-January-2024_BinWidth_None'' \<and>
   fst (main example_execute example_load example_date example_cfg
     \<lparr>fs = example_fs\<lparr>content := (content example_fs)(''/in/params.yaml'' \<mapsto> ''setting: {}'')\<rparr>,
      calls = []\<rparr>) = Inr ()"
  by (simp add: run_defs example_defs)

text \<open>
  C9, as the code has it. A mapping line without the separator, or whose key \<^verbatim>\<open>int\<close>
  rejects, raises \<^verbatim>\<open>ValueError\<close> in \<open>dict_from_file\<close>; nothing handles it and \<open>main\<close>
  ends with it before anything is written. For a parameter file that exists and can be
  read: a document that lacks \<open>setting\<close> or \<open>setting.binWidth\<close> is handled, the value is
  \<^verbatim>\<open>None\<close> and the output root ends in \<^verbatim>\<open>_BinWidth_None\<close>; a document that is not a
  mapping, or whose \<open>setting\<close> is not one, raises \<^verbatim>\<open>TypeError\<close>; a text the YAML reader
  rejects raises the reader's error. These two failures are not handled and end \<open>main\<close>,
  and they are the only ways in which reading the parameter fails.
\<close>

theorem malformed_input_handling:
  "(content (fs s) (maskvalues_file cfg) = Some mtxt \<and> file_lines mtxt = good @ bad # rest \<and>
    (\<forall>l\<in>set good. \<exists>key val n. py_split l '':'' = Inr [key, val] \<and> py_int (strip key) = Some n) \<and>
    (CHR '':'' \<notin> set bad \<or> (\<exists>key val. py_split bad '':'' = Inr [key, val] \<and> py_int (strip key) = None))
    \<longrightarrow> dict_from_file (fs s) (maskvalues_file cfg) '':'' = Inl ValueError \<and>
        main execute safe_load today cfg s = (Inl ValueError, s)) \<and>
   (path_exists (fs s) (parameters_file cfg) \<and> content (fs s) (parameters_file cfg) = Some ptxt \<and>
    safe_load ptxt = Inr (YMap m) \<and>
    (m ''setting'' = None \<or> (\<exists>f. m ''setting'' = Some (SMap f) \<and> f ''binWidth'' = None))
    \<longrightarrow> get_parameter_value safe_load (fs s) (parameters_file cfg) ''setting'' ''binWidth'' = Inr PNone \<and>
        verbose_output_location safe_load today (fs s) (output_location cfg) (parameters_file cfg) =
          Inr (path_join (output_location cfg) (date_today today @ ''_BinWidth_None''))) \<and>
   (path_exists (fs s) (parameters_file cfg) \<and> content (fs s) (parameters_file cfg) = Some ptxt \<and>
    (\<exists>v. safe_load ptxt = Inr (YVal v) \<or>
         (\<exists>m. safe_load ptxt = Inr (YMap m) \<and> m ''setting'' = Some (SVal v))) \<and>
    dict_from_file (fs s) (maskvalues_file cfg) '':'' = Inr mask_values \<and>
    lines_from_file (fs s) (ids_file cfg) = Inr participant_IDs
    \<longrightarrow> verbose_output_location safe_load today (fs s) (output_location cfg) (parameters_file cfg) =
          Inl TypeError \<and>
        main execute safe_load today cfg s = (Inl TypeError, s)) \<and>
   (path_exists (fs s) (parameters_file cfg) \<and> content (fs s) (parameters_file cfg) = Some ptxt \<and>
    safe_load ptxt = Inl e \<and>
    dict_from_file (fs s) (maskvalues_file cfg) '':'' = Inr mask_values \<and>
    lines_from_file (fs s) (ids_file cfg) = Inr participant_IDs
    \<longrightarrow> get_parameter_value safe_load (fs s) (parameters_file cfg) ''setting'' ''binWidth'' = Inl e \<and>
        verbose_output_location safe_load today (fs s) (output_location cfg) (parameters_file cfg) = Inl e \<and>
        main execute safe_load today cfg s = (Inl e, s)) \<and>
   (path_exists (fs s) (parameters_file cfg) \<and> content (fs s) (parameters_file cfg) = Some ptxt \<and>
    get_parameter_value safe_load (fs s) (parameters_file cfg) ''setting'' ''binWidth'' = Inl e
    \<longrightarrow> safe_load ptxt = Inl e \<or>
        e = TypeError \<and>
        (\<exists>v. safe_load ptxt = Inr (YVal v) \<or>
             (\<exists>m. safe_load ptxt = Inr (YMap m) \<and> m ''setting'' = Some (SVal v))))"
proof (intro conjI impI)
  assume a: "content (fs s) (maskvalues_file cfg) = Some mtxt \<and> file_lines mtxt = good @ bad # rest \<and>
    (\<forall>l\<in>set good. \<exists>key val n. py_split l '':'' = Inr [key, val] \<and> py_int (strip key) = Some n) \<and>
    (CHR '':'' \<notin> set bad \<or> (\<exists>key val. py_split bad '':'' = Inr [key, val] \<and> py_int (strip key) = None))"
  then have "parse_lines '':'' (good @ bad # rest) [] = Inl ValueError"
    by (intro parse_lines_bad) blast+
  with a show d: "dict_from_file (fs s) (maskvalues_file cfg) '':'' = Inl ValueError"
    by (simp add: dict_from_file_def)
  then show "main execute safe_load today cfg s = (Inl ValueError, s)"
    by (simp add: main_def)
next
  assume a: "path_exists (fs s) (parameters_file cfg) \<and> content (fs s) (parameters_file cfg) = Some ptxt \<and>
    safe_load ptxt = Inr (YMap m) \<and>
    (m ''setting'' = None \<or> (\<exists>f. m ''setting'' = Some (SMap f) \<and> f ''binWidth'' = None))"
  then show g: "get_parameter_value safe_load (fs s) (parameters_file cfg) ''setting'' ''binWidth'' = Inr PNone"
    by (auto simp: get_parameter_value_def object_exists_def lookup_field_def)
  then show "verbose_output_location safe_load today (fs s) (output_location cfg) (parameters_file cfg) =
          Inr (path_join (output_location cfg) (date_today today @ ''_BinWidth_None''))"
    by (simp add: verbose_output_location_def)
next
  assume a: "path_exists (fs s) (parameters_file cfg) \<and> content (fs s) (parameters_file cfg) = Some ptxt \<and>
    (\<exists>v. safe_load ptxt = Inr (YVal v) \<or>
         (\<exists>m. safe_load ptxt = Inr (YMap m) \<and> m ''setting'' = Some (SVal v))) \<and>
    dict_from_file (fs s) (maskvalues_file cfg) '':'' = Inr mask_values \<and>
    lines_from_file (fs s) (ids_file cfg) = Inr participant_IDs"
  then have "get_parameter_value safe_load (fs s) (parameters_file cfg) ''setting'' ''binWidth'' = Inl TypeError"
    by (auto simp: get_parameter_value_def object_exists_def lookup_field_def)
  then show v: "verbose_output_location safe_load today (fs s) (output_location cfg) (parameters_file cfg) =
          Inl TypeError"
    by (simp add: verbose_output_location_def)
  with a show "main execute safe_load today cfg s = (Inl TypeError, s)"
    by (simp add: main_def)
next
  assume a: "path_exists (fs s) (parameters_file cfg) \<and> content (fs s) (parameters_file cfg) = Some ptxt \<and>
    safe_load ptxt = Inl e \<and>
    dict_from_file (fs s) (maskvalues_file cfg) '':'' = Inr mask_values \<and>
    lines_from_file (fs s) (ids_file cfg) = Inr participant_IDs"
  then show g: "get_parameter_value safe_load (fs s) (parameters_file cfg) ''setting'' ''binWidth'' = Inl e"
    by (simp add: get_parameter_value_def object_exists_def)
  then show v: "verbose_output_location safe_load today (fs s) (output_location cfg) (parameters_file cfg) = Inl e"
    by (simp add: verbose_output_location_def)
  with a show "main execute safe_load today cfg s = (Inl e, s)"
    by (simp add: main_def)
next
  assume a: "path_exists (fs s) (parameters_file cfg) \<and> content (fs s) (parameters_file cfg) = Some ptxt \<and>
    get_parameter_value safe_load (fs s) (parameters_file cfg) ''setting'' ''binWidth'' = Inl e"
  then have p: "path_exists (fs s) (parameters_file cfg)"
    and c: "content (fs s) (parameters_file cfg) = Some ptxt"
    and g: "get_parameter_value safe_load (fs s) (parameters_file cfg) ''setting'' ''binWidth'' = Inl e"
    by simp_all
  from g show "safe_load ptxt = Inl e \<or>
        e = TypeError \<and>
        (\<exists>v. safe_load ptxt = Inr (YVal v) \<or>
             (\<exists>m. safe_load ptxt = Inr (YMap m) \<and> m ''setting'' = Some (SVal v)))"
  proof (cases "safe_load ptxt")
    case (Inl e')
    with g p c show ?thesis by (simp add: get_parameter_value_def object_exists_def)
  next
    case (Inr data)
    with g p c have l: "lookup_field data ''setting'' ''binWidth'' = Inl e"
      by (simp add: get_parameter_value_def object_exists_def)
    show ?thesis
    proof (cases data)
      case (YVal v)
      with l Inr show ?thesis by (simp add: lookup_field_def)
    next
      case (YMap m)
      show ?thesis
      proof (cases "m ''setting''")
        case None
        with l YMap show ?thesis by (simp add: lookup_field_def)
      next
        case (Some en)
        show ?thesis
        proof (cases en)
          case (SVal v)
          with l YMap Some Inr show ?thesis by (simp add: lookup_field_def)
        next
          case (SMap f)
          with l YMap Some show ?thesis by (cases "f ''binWidth''") (simp_all add: lookup_field_def)
        qed
      qed
    qed
  qed
qed

theorem malformed_input_handling_witness:
  "main example_execute example_load example_date example_cfg
     \<lparr>fs = example_fs\<lparr>content := (content example_fs)(''/in/maskvalues.txt'' \<mapsto> ''1:amygdala\<newline>hippocampus\<newline>'')\<rparr>,
      calls = []\<rparr> =
     (Inl ValueError,
      \<lparr>fs = example_fs\<lparr>content := (content example_fs)(''/in/maskvalues.txt'' \<mapsto> ''1:amygdala\<newline>hippocampus\<newline>'')\<rparr>,
       calls = []\<rparr>) \<and>
   verbose_output_location example_load example_date
     (example_fs\<lparr>content := (content example_fs)(''/in/params.yaml'' \<mapsto> ''setting: {}'')\<rparr>)
     ''/out'' ''/in/params.yaml'' = Inr ''/out/05-January-2024_BinWidth_None'' \<and>
   main example_execute example_load example_date example_cfg
     \<lparr>fs = example_fs\<lparr>content := (content example_fs)(''/in/params.yaml'' \<mapsto> ''25'')\<rparr>, calls = []\<rparr> =
     (Inl TypeError,
      \<lparr>fs = example_fs\<lparr>content := (content example_fs)(''/in/params.yaml'' \<mapsto> ''25'')\<rparr>, calls = []\<rparr>) \<and>
   main example_execute example_load example_date example_cfg
     \<lparr>fs = example_fs\<lparr>content := (content example_fs)(''/in/params.yaml'' \<mapsto> ''setting: ['')\<rparr>, calls = []\<rparr> =
     (Inl YAMLError,
      \<lparr>fs = example_fs\<lparr>content := (content example_fs)(''/in/params.yaml'' \<mapsto> ''setting: ['')\<rparr>, calls = []\<rparr>) \<and>
   (example_load ''25'' = Inl TypeError \<or>
    (\<exists>v. example_load ''25'' = Inr (YVal v) \<or>
         (\<exists>m. example_load ''25'' = Inr (YMap m) \<and> m ''setting'' = Some (SVal v))))"
proof -
  let ?sa = "\<lparr>fs = example_fs\<lparr>content := (content example_fs)(''/in/maskvalues.txt'' \<mapsto> ''1:amygdala\<newline>hippocampus\<newline>'')\<rparr>,
      calls = []\<rparr>"
  let ?sb = "\<lparr>fs = example_fs\<lparr>content := (content example_fs)(''/in/params.yaml'' \<mapsto> ''setting: {}'')\<rparr>,
      calls = []\<rparr>"
  let ?sc = "\<lparr>fs = example_fs\<lparr>content := (content example_fs)(''/in/params.yaml'' \<mapsto> ''25'')\<rparr>, calls = []\<rparr>"
  let ?sd = "\<lparr>fs = example_fs\<lparr>content := (content example_fs)(''/in/params.yaml'' \<mapsto> ''setting: ['')\<rparr>, calls = []\<rparr>"
  have ha: "content (fs ?sa) (maskvalues_file example_cfg) = Some ''1:amygdala\<newline>hippocampus\<newline>'' \<and>
    file_lines ''1:amygdala\<newline>hippocampus\<newline>'' = [''1:amygdala\<newline>''] @ ''hippocampus\<newline>'' # [] \<and>
    (\<forall>l\<in>set [''1:amygdala\<newline>'']. \<exists>key val n. py_split l '':'' = Inr [key, val] \<and> py_int (strip key) = Some n) \<and>
    (CHR '':'' \<notin> set ''hippocampus\<newline>'' \<or>
     (\<exists>key val. py_split ''hippocampus\<newline>'' '':'' = Inr [key, val] \<and> py_int (strip key) = None))"
    by (simp add: example_cfg_def file_lines_def py_split_def split_from.simps py_int_def strip_def
        isspace_def digit_of_def)
  have hb: "path_exists (fs ?sb) (parameters_file example_cfg) \<and>
    content (fs ?sb) (parameters_file example_cfg) = Some ''setting: {}'' \<and>
    example_load ''setting: {}'' = Inr (YMap [''setting'' \<mapsto> SMap Map.empty]) \<and>
    ([''setting'' \<mapsto> SMap Map.empty] ''setting'' = None \<or>
     (\<exists>f. [''setting'' \<mapsto> SMap Map.empty] ''setting'' = Some (SMap f) \<and> f ''binWidth'' = None))"
    by (simp add: example_cfg_def example_fs_def example_load_def)
  have hc: "path_exists (fs ?sc) (parameters_file example_cfg) \<and>
    content (fs ?sc) (parameters_file example_cfg) = Some ''25'' \<and>
    (\<exists>v. example_load ''25'' = Inr (YVal v) \<or>
         (\<exists>m. example_load ''25'' = Inr (YMap m) \<and> m ''setting'' = Some (SVal v))) \<and>
    dict_from_file (fs ?sc) (maskvalues_file example_cfg) '':'' = Inr [(1, ''amygdala''), (14, ''hippocampus'')] \<and>
    lines_from_file (fs ?sc) (ids_file example_cfg) = Inr [''sub-01'', ''sub-02'']"
    by (simp add: example_cfg_def example_fs_def example_load_def dict_from_file_def lines_from_file_def
        file_lines_def py_split_def split_from.simps py_int_def strip_def isspace_def digit_of_def)
  have hd: "path_exists (fs ?sd) (parameters_file example_cfg) \<and>
    content (fs ?sd) (parameters_file example_cfg) = Some ''setting: ['' \<and>
    example_load ''setting: ['' = Inl YAMLError \<and>
    dict_from_file (fs ?sd) (maskvalues_file example_cfg) '':'' = Inr [(1, ''amygdala''), (14, ''hippocampus'')] \<and>
    lines_from_file (fs ?sd) (ids_file example_cfg) = Inr [''sub-01'', ''sub-02'']"
    by (simp add: example_cfg_def example_fs_def example_load_def dict_from_file_def lines_from_file_def
        file_lines_def py_split_def split_from.simps py_int_def strip_def isspace_def digit_of_def)
  have he: "path_exists (fs ?sc) (parameters_file example_cfg) \<and>
    content (fs ?sc) (parameters_file example_cfg) = Some ''25'' \<and>
    get_parameter_value example_load (fs ?sc) (parameters_file example_cfg) ''setting'' ''binWidth'' = Inl TypeError"
    by (simp add: example_cfg_def example_fs_def example_load_def get_parameter_value_def object_exists_def
        lookup_field_def)
  have n: "path_join ''/out'' (date_today example_date @ ''_BinWidth_None'') =
      ''/out/05-January-2024_BinWidth_None''"
    by (simp add: run_defs example_defs)
  have o: "output_location example_cfg = ''/out''" "parameters_file example_cfg = ''/in/params.yaml''"
    by (simp_all add: example_cfg_def)
  from malformed_input_handling [where s = ?sa and cfg = example_cfg and execute = example_execute
      and safe_load = example_load and today = example_date, THEN conjunct1, THEN mp, OF ha, THEN conjunct2]
  have ra: "main example_execute example_load example_date example_cfg ?sa = (Inl ValueError, ?sa)" .
  from malformed_input_handling [where s = ?sb and cfg = example_cfg and safe_load = example_load
      and today = example_date, THEN conjunct2, THEN conjunct1, THEN mp, OF hb, THEN conjunct2]
  have rb: "verbose_output_location example_load example_date (fs ?sb) (output_location example_cfg)
      (parameters_file example_cfg) =
      Inr (path_join (output_location example_cfg) (date_today example_date @ ''_BinWidth_None''))" .
  from malformed_input_handling [where s = ?sc and cfg = example_cfg and execute = example_execute
      and safe_load = example_load and today = example_date,
      THEN conjunct2, THEN conjunct2, THEN conjunct1, THEN mp, OF hc, THEN conjunct2]
  have rc: "main example_execute example_load example_date example_cfg ?sc = (Inl TypeError, ?sc)" .
  from malformed_input_handling [where s = ?sd and cfg = example_cfg and execute = example_execute
      and safe_load = example_load and today = example_date and e = YAMLError,
      THEN conjunct2, THEN conjunct2, THEN conjunct2, THEN conjunct1, THEN mp, OF hd,
      THEN conjunct2, THEN conjunct2]
  have rd: "main example_execute example_load example_date example_cfg ?sd = (Inl YAMLError, ?sd)" .
  from malformed_input_handling [where s = ?sc and cfg = example_cfg and safe_load = example_load
      and ptxt = "''25''" and e = TypeError,
      THEN conjunct2, THEN conjunct2, THEN conjunct2, THEN conjunct2, THEN mp, OF he]
  have re: "example_load ''25'' = Inl TypeError \<or>
    (\<exists>v. example_load ''25'' = Inr (YVal v) \<or>
         (\<exists>m. example_load ''25'' = Inr (YMap m) \<and> m ''setting'' = Some (SVal v)))"
    by simp
  from rb have rb': "verbose_output_location example_load example_date (fs ?sb) ''/out'' ''/in/params.yaml'' =
      Inr ''/out/05-January-2024_BinWidth_None''"
    unfolding o n .
  from ra rb' rc rd re show ?thesis by simp
qed

end
